theory Spec2Isabelle
  imports Main "HOL-Library.AList"
begin

section \<open>Strings and character classes\<close>

text \<open>
  The packaging code of \<^verbatim>\<open>src/package.ts\<close> works on JavaScript strings. They are
  modelled as \<^typ>\<open>string\<close>, one \<^typ>\<open>char\<close> per code unit; the character classes of
  the regular expressions (\<^verbatim>\<open>\s\<close>, \<^verbatim>\<open>\w\<close>, \<^verbatim>\<open>\d\<close>, the flag \<^verbatim>\<open>i\<close>) are the
  ones of the code units below \<^verbatim>\<open>0x100\<close>.
\<close>

abbreviation LF :: char where "LF \<equiv> CHR 0x0A"
abbreviation CR :: char where "CR \<equiv> CHR 0x0D"

text \<open>\<^verbatim>\<open>\s\<close>: tab, line feed, vertical tab, form feed, carriage return, space, no-break space.\<close>

definition is_space :: "char \<Rightarrow> bool" where
  "is_space c \<longleftrightarrow>
     c = CHR 0x09 \<or> c = LF \<or> c = CHR 0x0B \<or> c = CHR 0x0C \<or> c = CR \<or> c = CHR '' '' \<or> c = CHR 0xA0"

text \<open>\<^verbatim>\<open>String.prototype.trim\<close>.\<close>

definition trim :: "string \<Rightarrow> string" where
  "trim s = rev (dropWhile is_space (rev (dropWhile is_space s)))"

text \<open>
  \<^verbatim>\<open>s.split(re)\<close> for a regular expression \<^verbatim>\<open>re\<close> that matches single characters
  (the class \<open>P\<close>): the empty string gives one empty piece, and two separators in a row
  give an empty piece between them.
\<close>

fun split_on :: "(char \<Rightarrow> bool) \<Rightarrow> string \<Rightarrow> string list" where
  "split_on P [] = [[]]"
| "split_on P (c # cs) =
     (if P c then [] # split_on P cs
      else (case split_on P cs of [] \<Rightarrow> [[c]] | x # xs \<Rightarrow> (c # x) # xs))"


section \<open>The ignore engine: \<^verbatim>\<open>collectFiles\<close>\<close>

text \<open>
  \<^verbatim>\<open>/\r$/m.test(f)\<close>: with the flag \<^verbatim>\<open>m\<close> the anchor \<^verbatim>\<open>$\<close> holds at the end of the
  string and before a line terminator, so the test looks for a carriage return that ends
  the string or stands before a line feed or another carriage return.
\<close>

fun cr_at_eol :: "string \<Rightarrow> bool" where
  "cr_at_eol [] = False"
| "cr_at_eol [c] = (c = CR)"
| "cr_at_eol (c # d # cs) = ((c = CR \<and> (d = LF \<or> d = CR)) \<or> cr_at_eol (d # cs))"

text \<open>The outcome of reading \<^verbatim>\<open>.vscodeignore\<close>: its text, the code \<^verbatim>\<open>ENOENT\<close>, or another failure.\<close>

datatype read_result = Contents string | ENOENT | ReadFailure string

datatype error =
    IOError string
  | PlaceholderReadme
  | BrokenReference bool string
  | SvgDataUrl string
  | NotHttps string
  | UntrustedSvg string
  | SvgTag
  | URIError
  | TypeError
  | IconNotFound string
  | SyntaxError string

text \<open>\<^verbatim>\<open>/^\s*#/.test(i)\<close> and \<^verbatim>\<open>/^\s*!/.test(i)\<close>.\<close>

definition is_comment :: "string \<Rightarrow> bool" where
  "is_comment i = (case dropWhile is_space i of [] \<Rightarrow> False | c # _ \<Rightarrow> c = CHR ''#'')"

definition is_negated :: "string \<Rightarrow> bool" where
  "is_negated i = (case dropWhile is_space i of [] \<Rightarrow> False | c # _ \<Rightarrow> c = CHR ''!'')"

text \<open>
  \<^verbatim>\<open>rawIgnore.split(/[\n\r]/).map(s => s.trim()).filter(s => !!s).filter(i => !/^\s*#/.test(i))\<close>
\<close>

definition parseIgnore :: "string \<Rightarrow> string list" where
  "parseIgnore rawIgnore =
     filter (\<lambda>i. \<not> is_comment i)
       (filter (\<lambda>s. s \<noteq> []) (map trim (split_on (\<lambda>c. c = LF \<or> c = CR) rawIgnore)))"

text \<open>
  \<^verbatim>\<open>/(^|\/)[^/]*\*[^/]*$/.test(i)\<close>: the part of \<open>i\<close> after its last slash (all of \<open>i\<close>
  when it has none) contains a star.
\<close>

definition last_segment :: "string \<Rightarrow> string" where
  "last_segment i = rev (takeWhile (\<lambda>c. c \<noteq> CHR ''/'') (rev i))"

definition star_in_last_segment :: "string \<Rightarrow> bool" where
  "star_in_last_segment i \<longleftrightarrow> CHR ''*'' \<in> set (last_segment i)"

text \<open>\<^verbatim>\<open>/\/$/.test(i)\<close>\<close>

definition ends_with_slash :: "string \<Rightarrow> bool" where
  "ends_with_slash i \<longleftrightarrow> i \<noteq> [] \<and> last i = CHR ''/''"

text \<open>
  \<^verbatim>\<open>[...ignore, ...ignore.filter(i => !/(^|\/)[^/]*\*[^/]*$/.test(i))
        .map(i => /\/$/.test(i) ? `${i}**` : `${i}/**`)]\<close>
\<close>

definition addFolderGlobs :: "string list \<Rightarrow> string list" where
  "addFolderGlobs ignore =
     ignore @ map (\<lambda>i. if ends_with_slash i then i @ ''**'' else i @ ''/**'')
                (filter (\<lambda>i. \<not> star_in_last_segment i) ignore)"

definition defaultIgnore :: "string list" where
  "defaultIgnore =
    [''.vscodeignore'', ''package-lock.json'', ''yarn.lock'', ''.editorconfig'', ''.npmrc'',
     ''.yarnrc'', ''.gitattributes'', ''*.todo'', ''tslint.yaml'', ''.eslintrc*'', ''.babelrc*'',
     ''.prettierrc'', ''ISSUE_TEMPLATE.md'', ''CONTRIBUTING.md'', ''PULL_REQUEST_TEMPLATE.md'',
     ''CODE_OF_CONDUCT.md'', ''.github'', ''.travis.yml'', ''appveyor.yml'', ''**/.git/**'',
     ''**/*.vsix'', ''**/.DS_Store'', ''**/*.vsixmanifest'', ''**/.vscode-test/**'']"

text \<open>\<^verbatim>\<open>[...defaultIgnore, ...ignore, '!package.json']\<close>\<close>

definition allRules :: "string \<Rightarrow> string list" where
  "allRules rawIgnore = defaultIgnore @ addFolderGlobs (parseIgnore rawIgnore) @ [''!package.json'']"

text \<open>
  The last two steps of \<^verbatim>\<open>collectFiles\<close>: \<^verbatim>\<open>_.partition\<close> of the rules by
  \<^verbatim>\<open>i => !/^\s*!/.test(i)\<close> and the filter of the files. The matcher \<open>mm f i\<close> stands for
  \<^verbatim>\<open>minimatch(f, i, { dot: true })\<close> of the npm package minimatch.
\<close>

definition filterFiles :: "(string \<Rightarrow> string \<Rightarrow> bool) \<Rightarrow> string list \<Rightarrow> string list \<Rightarrow> string list" where
  "filterFiles mm rules files =
     (case partition (\<lambda>i. \<not> is_negated i) rules of
        (ignore, negate) \<Rightarrow>
          filter (\<lambda>f. \<not> list_ex (\<lambda>i. mm f i) ignore \<or> list_ex (\<lambda>i. mm f (drop 1 i)) negate) files)"

text \<open>
  \<^verbatim>\<open>collectFiles\<close>, from the list \<open>files\<close> that \<^verbatim>\<open>collectAllFiles\<close> resolves to and the
  outcome \<open>r\<close> of reading the ignore file: a missing file is the empty text, any other
  failure rejects.
\<close>

definition collectFiles ::
  "(string \<Rightarrow> string \<Rightarrow> bool) \<Rightarrow> read_result \<Rightarrow> string list \<Rightarrow> error + string list" where
  "collectFiles mm r files =
     (let files = filter (\<lambda>f. \<not> cr_at_eol f) files in
      case r of
        ReadFailure code \<Rightarrow> Inl (IOError code)
      | ENOENT \<Rightarrow> Inr (filterFiles mm (allRules []) files)
      | Contents rawIgnore \<Rightarrow> Inr (filterFiles mm (allRules rawIgnore) files))"


subsection \<open>A reference matcher for the glob fragment the rules use\<close>

text \<open>
  minimatch is a library outside this repository, so \<^const>\<open>collectFiles\<close> takes the matcher
  as a parameter and the general theorems hold for every matcher. To evaluate
  \<^const>\<open>collectFiles\<close> at concrete inputs, \<open>minimatch_dot\<close> follows minimatch 3 with the option
  \<^verbatim>\<open>dot: true\<close> on patterns made of literal characters, \<^verbatim>\<open>?\<close>, \<^verbatim>\<open>*\<close> and
  \<^verbatim>\<open>**\<close> (no braces, brackets, extglobs or escapes): a leading \<^verbatim>\<open>#\<close> is a comment,
  leading \<^verbatim>\<open>!\<close>s negate, file and pattern are split at runs of slashes, and the parts
  are matched one by one as in \<^verbatim>\<open>Minimatch.prototype.matchOne\<close>.
\<close>

function split_slashes :: "string \<Rightarrow> string list" where
  "split_slashes [] = [[]]"
| "split_slashes (c # cs) =
     (if c = CHR ''/'' then [] # split_slashes (dropWhile (\<lambda>d. d = CHR ''/'') cs)
      else (case split_slashes cs of [] \<Rightarrow> [[c]] | x # xs \<Rightarrow> (c # x) # xs))"
  by pat_completeness auto
termination
  by (relation "measure length") (auto simp: length_dropWhile_le less_Suc_eq_le)

datatype part = Globstar | Seg string

definition parse_part :: "string \<Rightarrow> part" where
  "parse_part p = (if p = ''**'' then Globstar else Seg p)"

text \<open>A part's wildcards: \<^verbatim>\<open>*\<close> is \<^verbatim>\<open>[^/]*?\<close> and \<^verbatim>\<open>?\<close> is \<^verbatim>\<open>[^/]\<close>.\<close>

fun wild :: "string \<Rightarrow> string \<Rightarrow> bool" where
  "wild [] [] = True"
| "wild [] (c # cs) = False"
| "wild (p # ps) [] = (p = CHR ''*'' \<and> wild ps [])"
| "wild (p # ps) (c # cs) =
     (if p = CHR ''*'' then wild ps (c # cs) \<or> wild (p # ps) cs
      else (p = CHR ''?'' \<or> p = c) \<and> wild ps cs)"

definition is_dots :: "string \<Rightarrow> bool" where
  "is_dots f \<longleftrightarrow> f = ''.'' \<or> f = ''..''"

text \<open>
  A part without wildcards is compared as a string. A part with wildcards is the regular
  expression \<^verbatim>\<open>^(?:(?=.)...)$\<close>, which wants a first character that is no line
  terminator; when the part starts with a wildcard, the parts \<^verbatim>\<open>.\<close> and \<^verbatim>\<open>..\<close> are
  excluded.
\<close>

definition seg_match :: "string \<Rightarrow> string \<Rightarrow> bool" where
  "seg_match p f =
     (if CHR ''*'' \<in> set p \<or> CHR ''?'' \<in> set p then
        (case f of [] \<Rightarrow> False | c # _ \<Rightarrow> c \<noteq> LF \<and> c \<noteq> CR)
        \<and> \<not> ((hd p = CHR ''*'' \<or> hd p = CHR ''?'') \<and> is_dots f)
        \<and> wild p f
      else f = p)"

fun matchOne :: "string list \<Rightarrow> part list \<Rightarrow> bool" where
  "matchOne [] [] = True"
| "matchOne [] (p # ps) = False"
| "matchOne (f # fs) [] = (fs = [] \<and> f = [])"
| "matchOne (f # fs) (Globstar # ps) =
     (if ps = [] then \<not> list_ex is_dots (f # fs)
      else matchOne (f # fs) ps \<or> (\<not> is_dots f \<and> matchOne fs (Globstar # ps)))"
| "matchOne (f # fs) (Seg p # ps) = (seg_match p f \<and> matchOne fs ps)"

definition minimatch_dot :: "string \<Rightarrow> string \<Rightarrow> bool" where
  "minimatch_dot f pattern =
     (if pattern \<noteq> [] \<and> hd pattern = CHR ''#'' then False
      else if trim pattern = [] then f = []
      else
        let n = length (takeWhile (\<lambda>c. c = CHR ''!'') pattern);
            hit = matchOne (split_slashes f) (map parse_part (split_slashes (drop n pattern)))
        in if even n then hit else \<not> hit)"


subsection \<open>The rule set as the specification describes it\<close>

text \<open>
  The specification speaks of an exclude set and a reinclude set: the built-in defaults
  and the project patterns (expanded for folder names) without a negation marker exclude;
  the project patterns with the marker, the marker stripped, and the manifest descriptor
  file reinclude. These definitions follow the specification's words; the theorems below
  compare them with what \<^const>\<open>collectFiles\<close> computes.
\<close>

definition ignoreText :: "read_result \<Rightarrow> string" where
  "ignoreText r = (case r of Contents rawIgnore \<Rightarrow> rawIgnore | _ \<Rightarrow> [])"

definition unreadable :: "read_result \<Rightarrow> bool" where
  "unreadable r = (case r of ReadFailure _ \<Rightarrow> True | _ \<Rightarrow> False)"

definition projectRules :: "string \<Rightarrow> string list" where
  "projectRules rawIgnore = addFolderGlobs (parseIgnore rawIgnore)"

definition excludeRules :: "string \<Rightarrow> string list" where
  "excludeRules rawIgnore = defaultIgnore @ filter (\<lambda>i. hd i \<noteq> CHR ''!'') (projectRules rawIgnore)"

definition reincludeRules :: "string \<Rightarrow> string list" where
  "reincludeRules rawIgnore =
     map tl (filter (\<lambda>i. hd i = CHR ''!'') (projectRules rawIgnore)) @ [''package.json'']"

definition matches :: "(string \<Rightarrow> string \<Rightarrow> bool) \<Rightarrow> string list \<Rightarrow> string \<Rightarrow> bool" where
  "matches mm rules f = list_ex (\<lambda>i. mm f i) rules"

text \<open>
  A bare folder name as one line of the ignore file: not empty, on one line, without a
  star, without white space at its ends, neither a comment nor a negation, and without a
  trailing slash.
\<close>

definition bare_name :: "string \<Rightarrow> bool" where
  "bare_name n \<longleftrightarrow>
     n \<noteq> [] \<and> LF \<notin> set n \<and> CR \<notin> set n \<and> CHR ''*'' \<notin> set n \<and>
     \<not> is_space (hd n) \<and> \<not> is_space (last n) \<and>
     hd n \<noteq> CHR ''#'' \<and> hd n \<noteq> CHR ''!'' \<and> last n \<noteq> CHR ''/''"


subsection \<open>What the parsing steps guarantee\<close>

lemma trim_hd: "trim s \<noteq> [] \<Longrightarrow> \<not> is_space (hd (trim s))"
  by (metis append_is_Nil_conv dropWhile_eq_Cons_conv hd_Cons_tl
      last_appendR last_rev rev.simps(1) rev_rev_ident trim_def)

lemma trim_id:
  assumes "s \<noteq> []" "\<not> is_space (hd s)" "\<not> is_space (last s)"
  shows "trim s = s"
proof -
  from assms have "dropWhile is_space s = s"
    by (cases s) auto
  moreover from assms have "dropWhile is_space (rev s) = rev s"
    by (cases "rev s") (auto simp: hd_rev [symmetric])
  ultimately show ?thesis
    by (simp add: trim_def)
qed

lemma split_on_none: "\<forall>c\<in>set s. \<not> P c \<Longrightarrow> split_on P s = [s]"
  by (induction s) auto

lemma parseIgnore_hd: "i \<in> set (parseIgnore raw) \<Longrightarrow> i \<noteq> [] \<and> \<not> is_space (hd i)"
  by (auto simp: parseIgnore_def trim_hd)

lemma projectRules_hd: "i \<in> set (projectRules raw) \<Longrightarrow> i \<noteq> [] \<and> \<not> is_space (hd i)"
  by (auto simp: projectRules_def addFolderGlobs_def dest: parseIgnore_hd)

lemma is_negated_hd: "i \<noteq> [] \<Longrightarrow> \<not> is_space (hd i) \<Longrightarrow> is_negated i \<longleftrightarrow> hd i = CHR ''!''"
  by (cases i) (auto simp: is_negated_def)

lemma default_not_negated: "i \<in> set defaultIgnore \<Longrightarrow> \<not> is_negated i"
  by (auto simp: defaultIgnore_def is_negated_def is_space_def)

text \<open>
  After \<^const>\<open>trim\<close> no rule starts with white space, so the test \<^verbatim>\<open>/^\s*!/\<close> of the
  partition holds exactly for the rules whose first character is the marker, and
  \<^verbatim>\<open>substr(1)\<close> strips the marker.
\<close>

lemma partition_allRules:
  "partition (\<lambda>i. \<not> is_negated i) (allRules raw) =
     (excludeRules raw, filter (\<lambda>i. hd i = CHR ''!'') (projectRules raw) @ [''!package.json''])"
proof -
  have d: "filter (\<lambda>i. \<not> is_negated i) defaultIgnore = defaultIgnore"
    "filter is_negated defaultIgnore = []"
    by (auto simp: filter_id_conv filter_empty_conv default_not_negated)
  have p: "filter (\<lambda>i. \<not> is_negated i) (projectRules raw) =
             filter (\<lambda>i. hd i \<noteq> CHR ''!'') (projectRules raw)"
    "filter is_negated (projectRules raw) = filter (\<lambda>i. hd i = CHR ''!'') (projectRules raw)"
    by (auto intro!: filter_cong dest!: projectRules_hd simp: is_negated_hd)
  have l: "is_negated ''!package.json''"
    by (simp add: is_negated_def is_space_def)
  show ?thesis
    using d p l by (simp add: allRules_def excludeRules_def projectRules_def o_def)
qed

lemma filterFiles_allRules:
  "filterFiles mm (allRules raw) files =
     filter (\<lambda>f. \<not> matches mm (excludeRules raw) f \<or> matches mm (reincludeRules raw) f) files"
  unfolding filterFiles_def partition_allRules
  by (auto simp: matches_def reincludeRules_def list_ex_iff drop_Suc intro!: filter_cong)

lemma collectFiles_readable:
  "\<not> unreadable r \<Longrightarrow>
   collectFiles mm r files =
     Inr (filterFiles mm (allRules (ignoreText r)) (filter (\<lambda>f. \<not> cr_at_eol f) files))"
  by (cases r) (simp_all add: collectFiles_def unreadable_def ignoreText_def)

lemma cr_at_eol_end: "cr_at_eol (pre @ [CR])"
  by (induction pre rule: cr_at_eol.induct) auto

lemma cr_at_eol_crlf: "cr_at_eol (pre @ CR # LF # post)"
  by (induction pre rule: cr_at_eol.induct) auto

lemma parseIgnore_single:
  assumes "s \<noteq> []" "LF \<notin> set s" "CR \<notin> set s" "\<not> is_space (hd s)" "\<not> is_space (last s)"
    "hd s \<noteq> CHR ''#''"
  shows "parseIgnore s = [s]"
proof -
  have "split_on (\<lambda>c. c = LF \<or> c = CR) s = [s]"
    using assms by (intro split_on_none) auto
  moreover have "\<not> is_comment s"
    using assms by (cases s) (auto simp: is_comment_def)
  ultimately show ?thesis
    using assms by (simp add: parseIgnore_def trim_id)
qed

lemma projectRules_bare:
  assumes "bare_name n"
  shows "projectRules n = [n, n @ ''/**'']" and "projectRules (n @ ''/**'') = [n @ ''/**'']"
proof -
  have n: "parseIgnore n = [n]"
    using assms by (intro parseIgnore_single) (auto simp: bare_name_def)
  have "\<not> star_in_last_segment n"
    using assms
    by (auto simp: star_in_last_segment_def last_segment_def bare_name_def dest: set_takeWhileD)
  then show "projectRules n = [n, n @ ''/**'']"
    using assms n by (simp add: projectRules_def addFolderGlobs_def ends_with_slash_def bare_name_def)
  have "parseIgnore (n @ ''/**'') = [n @ ''/**'']"
    using assms by (intro parseIgnore_single) (auto simp: bare_name_def is_space_def)
  moreover have "star_in_last_segment (n @ ''/**'')"
    by (simp add: star_in_last_segment_def last_segment_def)
  ultimately show "projectRules (n @ ''/**'') = [n @ ''/**'']"
    by (simp add: projectRules_def addFolderGlobs_def)
qed


subsection \<open>The included set\<close>

text \<open>
  C1 (as amended). For every candidate list and every readable rule set, the included
  files are exactly the candidates without a carriage return at a line end (the guard
  \<^verbatim>\<open>!/\r$/m.test(f)\<close>) that no exclude rule matches or some reinclude rule matches:
  with \<open>F\<close> those candidates, \<open>E\<close> the ones an exclude rule matches and \<open>N\<close> the ones a
  reinclude rule matches, the included set is \<open>(F - E) \<union> (N \<inter> E)\<close>.
\<close>

theorem collectFiles_included:
  assumes "\<not> unreadable r"
  shows "\<exists>included.
           collectFiles mm r files = Inr included \<and>
           included =
             filter (\<lambda>f. \<not> matches mm (excludeRules (ignoreText r)) f
                        \<or> matches mm (reincludeRules (ignoreText r)) f)
               (filter (\<lambda>f. \<not> cr_at_eol f) files) \<and>
           set included =
             ({f \<in> set files. \<not> cr_at_eol f}
                - {f \<in> set files. \<not> cr_at_eol f \<and> matches mm (excludeRules (ignoreText r)) f})
             \<union> ({f \<in> set files. \<not> cr_at_eol f \<and> matches mm (reincludeRules (ignoreText r)) f}
                \<inter> {f \<in> set files. \<not> cr_at_eol f \<and> matches mm (excludeRules (ignoreText r)) f})"
  using assms by (auto simp: collectFiles_readable filterFiles_allRules)

theorem collectFiles_included_witness:
  "\<not> unreadable (Contents (''out'' @ [LF] @ ''!out/keep.js''))
   \<and> collectFiles minimatch_dot (Contents (''out'' @ [LF] @ ''!out/keep.js''))
        [''package.json'', ''out/a.js'', ''out/keep.js'', ''src/x.ts'', ''Icon'' @ [CR]]
      = Inr [''package.json'', ''out/keep.js'', ''src/x.ts'']"
proof -
  have "\<not> unreadable (Contents (''out'' @ [LF] @ ''!out/keep.js''))"
    by (simp add: unreadable_def)
  from collectFiles_included [OF this, of minimatch_dot
      "[''package.json'', ''out/a.js'', ''out/keep.js'', ''src/x.ts'', ''Icon'' @ [CR]]"]
  obtain included where
    "collectFiles minimatch_dot (Contents (''out'' @ [LF] @ ''!out/keep.js''))
       [''package.json'', ''out/a.js'', ''out/keep.js'', ''src/x.ts'', ''Icon'' @ [CR]] = Inr included"
    and "included =
       filter (\<lambda>f. \<not> matches minimatch_dot
                   (excludeRules (ignoreText (Contents (''out'' @ [LF] @ ''!out/keep.js'')))) f
                 \<or> matches minimatch_dot
                   (reincludeRules (ignoreText (Contents (''out'' @ [LF] @ ''!out/keep.js'')))) f)
         (filter (\<lambda>f. \<not> cr_at_eol f)
            [''package.json'', ''out/a.js'', ''out/keep.js'', ''src/x.ts'', ''Icon'' @ [CR]])"
    by blast
  moreover have
    "filter (\<lambda>f. \<not> matches minimatch_dot
                 (excludeRules (ignoreText (Contents (''out'' @ [LF] @ ''!out/keep.js'')))) f
               \<or> matches minimatch_dot
                 (reincludeRules (ignoreText (Contents (''out'' @ [LF] @ ''!out/keep.js'')))) f)
       (filter (\<lambda>f. \<not> cr_at_eol f)
          [''package.json'', ''out/a.js'', ''out/keep.js'', ''src/x.ts'', ''Icon'' @ [CR]])
     = [''package.json'', ''out/keep.js'', ''src/x.ts'']"
    by code_simp
  ultimately show ?thesis
    by (simp add: unreadable_def)
qed

text \<open>
  The claim as the specification states it, for every candidate list, fails for a
  candidate whose name ends in a carriage return (the file \<^verbatim>\<open>Icon\r\<close> of a macOS
  folder): no exclude rule matches it, and it is not included.
\<close>

theorem collectFiles_included_counterexample:
  "collectFiles minimatch_dot ENOENT [''Icon'' @ [CR]] = Inr []
   \<and> filter (\<lambda>f. \<not> matches minimatch_dot (excludeRules (ignoreText ENOENT)) f
                \<or> matches minimatch_dot (reincludeRules (ignoreText ENOENT)) f)
        [''Icon'' @ [CR]] = [''Icon'' @ [CR]]"
  by code_simp

text \<open>
  C3 (as amended). A project ignore file with the single bare folder name \<open>n\<close> includes
  what the single pattern \<open>n/**\<close> includes, less the files that \<open>n\<close> itself matches
  (the manifest descriptor file apart): the code keeps the pattern \<open>n\<close> beside its
  expansion \<open>n/**\<close>.
\<close>

theorem bare_folder_name:
  assumes "bare_name n"
  shows "\<exists>A B.
           collectFiles mm (Contents n) files = Inr A \<and>
           collectFiles mm (Contents (n @ ''/**'')) files = Inr B \<and>
           A = filter (\<lambda>f. \<not> mm f n \<or> mm f ''package.json'') B"
proof -
  have h: "hd n \<noteq> CHR ''!''" "n \<noteq> []"
    using assms by (auto simp: bare_name_def)
  show ?thesis
    using h
    by (auto simp: collectFiles_def filterFiles_allRules excludeRules_def reincludeRules_def
        projectRules_bare [OF assms] matches_def intro!: filter_cong)
qed

theorem bare_folder_name_witness:
  "bare_name ''out''
   \<and> collectFiles minimatch_dot (Contents ''out'') [''package.json'', ''out/a.js'', ''out'']
       = Inr [''package.json'']
   \<and> collectFiles minimatch_dot (Contents ''out/**'') [''package.json'', ''out/a.js'', ''out'']
       = Inr [''package.json'', ''out'']"
proof -
  have b: "bare_name ''out''"
    by code_simp
  have e: "collectFiles minimatch_dot (Contents ''out'') [''package.json'', ''out/a.js'', ''out'']
       = Inr [''package.json'']"
    "collectFiles minimatch_dot (Contents ''out/**'') [''package.json'', ''out/a.js'', ''out'']
       = Inr [''package.json'', ''out'']"
    by code_simp+
  show ?thesis
    using b e bare_folder_name [OF b, of minimatch_dot "[''package.json'', ''out/a.js'', ''out'']"]
    by simp
qed

text \<open>
  The claim as stated fails for a candidate file named like the folder: the pattern
  \<^verbatim>\<open>foo\<close> excludes the file \<^verbatim>\<open>foo\<close>, the pattern \<^verbatim>\<open>foo/**\<close> does not.
\<close>

theorem bare_folder_name_counterexample:
  "collectFiles minimatch_dot (Contents ''foo'') [''foo'', ''src/a.ts''] = Inr [''src/a.ts'']
   \<and> collectFiles minimatch_dot (Contents ''foo/**'') [''foo'', ''src/a.ts'']
       = Inr [''foo'', ''src/a.ts'']"
  by code_simp

text \<open>
  C4. Whatever the rules, also rules that exclude it, the manifest descriptor file
  \<^verbatim>\<open>package.json\<close> of the candidate list is in the included set. The matcher is only
  asked to match the literal pattern \<^verbatim>\<open>package.json\<close> against the same path.
\<close>

theorem manifest_always_included:
  assumes "mm ''package.json'' ''package.json''"
    and "''package.json'' \<in> set files"
    and "\<not> unreadable r"
  shows "\<exists>included. collectFiles mm r files = Inr included \<and> ''package.json'' \<in> set included"
  using assms
  by (auto simp: collectFiles_readable filterFiles_allRules matches_def reincludeRules_def)

theorem manifest_always_included_witness:
  "minimatch_dot ''package.json'' ''package.json''
   \<and> ''package.json'' \<in> set [''src/a.ts'', ''package.json'']
   \<and> \<not> unreadable (Contents (''package.json'' @ [LF] @ ''**''))
   \<and> collectFiles minimatch_dot (Contents (''package.json'' @ [LF] @ ''**''))
        [''src/a.ts'', ''package.json''] = Inr [''package.json'']"
proof -
  have h: "minimatch_dot ''package.json'' ''package.json''"
    "''package.json'' \<in> set [''src/a.ts'', ''package.json'']"
    "\<not> unreadable (Contents (''package.json'' @ [LF] @ ''**''))"
    by code_simp+
  have e: "collectFiles minimatch_dot (Contents (''package.json'' @ [LF] @ ''**''))
        [''src/a.ts'', ''package.json''] = Inr [''package.json'']"
    by code_simp
  show ?thesis
    using h e
      manifest_always_included [of minimatch_dot "[''src/a.ts'', ''package.json'']"
        "Contents (''package.json'' @ [LF] @ ''**'')"]
    by simp
qed

text \<open>
  C10. A candidate whose path ends with a carriage return, or has one right before a
  line feed, is dropped before any rule is applied: it is not in the included set,
  whatever the rules, also when a reinclude pattern matches it.
\<close>

theorem carriage_return_dropped:
  assumes "f = pre @ [CR] \<or> f = pre @ CR # LF # post"
    and "\<not> unreadable r"
  shows "\<exists>included. collectFiles mm r files = Inr included \<and> f \<notin> set included"
proof -
  from assms(1) have "cr_at_eol f"
    by (auto simp: cr_at_eol_end cr_at_eol_crlf)
  with assms(2) show ?thesis
    by (simp add: collectFiles_readable filterFiles_allRules)
qed

theorem carriage_return_dropped_witness:
  "matches minimatch_dot (reincludeRules (''!Icon*'')) (''Icon'' @ [CR])
   \<and> \<not> unreadable (Contents ''!Icon*'')
   \<and> collectFiles minimatch_dot (Contents ''!Icon*'') [''Icon'' @ [CR], ''a.js''] = Inr [''a.js'']"
proof -
  have h: "\<not> unreadable (Contents ''!Icon*'')"
    by (simp add: unreadable_def)
  have m: "matches minimatch_dot (reincludeRules (''!Icon*'')) (''Icon'' @ [CR])"
    by code_simp
  have e: "collectFiles minimatch_dot (Contents ''!Icon*'') [''Icon'' @ [CR], ''a.js''] = Inr [''a.js'']"
    by code_simp
  show ?thesis
    using h m e
      carriage_return_dropped [of "''Icon'' @ [CR]" "''Icon''" "[]" "Contents ''!Icon*''"
        minimatch_dot "[''Icon'' @ [CR], ''a.js'']"]
    by simp
qed


section \<open>Values, manifest and files\<close>

text \<open>
  A value that is a string, \<^verbatim>\<open>undefined\<close> or \<^verbatim>\<open>null\<close> is a \<^typ>\<open>string option\<close>.
  In a condition the empty string counts as false like \<^verbatim>\<open>undefined\<close> and \<^verbatim>\<open>null\<close>;
  \<open>js_or a b\<close> is \<^verbatim>\<open>a || b\<close>. Converted to a string (the argument of
  \<^verbatim>\<open>RegExp.prototype.test\<close>), \<^verbatim>\<open>null\<close> is the text \<^verbatim>\<open>null\<close>.
\<close>

definition truthy :: "string option \<Rightarrow> bool" where
  "truthy v = (case v of None \<Rightarrow> False | Some s \<Rightarrow> s \<noteq> [])"

definition js_or :: "string option \<Rightarrow> string option \<Rightarrow> string option" where
  "js_or a b = (if truthy a then a else b)"

definition to_string :: "string option \<Rightarrow> string" where
  "to_string v = (case v of None \<Rightarrow> ''null'' | Some s \<Rightarrow> s)"

definition is_digit :: "char \<Rightarrow> bool" where
  "is_digit c \<longleftrightarrow> (48::nat) \<le> of_char c \<and> of_char c \<le> (57::nat)"

definition is_upper :: "char \<Rightarrow> bool" where
  "is_upper c \<longleftrightarrow> (65::nat) \<le> of_char c \<and> of_char c \<le> (90::nat)"

definition is_lower :: "char \<Rightarrow> bool" where
  "is_lower c \<longleftrightarrow> (97::nat) \<le> of_char c \<and> of_char c \<le> (122::nat)"

text \<open>\<^verbatim>\<open>\w\<close> and the class \<^verbatim>\<open>[\w\d_-]\<close>.\<close>

definition is_word :: "char \<Rightarrow> bool" where
  "is_word c \<longleftrightarrow> is_digit c \<or> is_upper c \<or> is_lower c \<or> c = CHR ''_''"

definition is_name_char :: "char \<Rightarrow> bool" where
  "is_name_char c \<longleftrightarrow> is_word c \<or> c = CHR ''-''"

text \<open>
  Case folding of the flag \<^verbatim>\<open>i\<close> and of \<^verbatim>\<open>toLowerCase\<close>, on the letters A to Z: the
  folded texts are only compared with texts of ASCII characters.
\<close>

definition to_lower :: "char \<Rightarrow> char" where
  "to_lower c = (if is_upper c then char_of (of_char c + (32::nat)) else c)"

definition toLowerCase :: "string \<Rightarrow> string" where
  "toLowerCase s = map to_lower s"

definition starts_with :: "string \<Rightarrow> string \<Rightarrow> bool" where
  "starts_with p s \<longleftrightarrow> take (length p) s = p"

definition ends_with :: "string \<Rightarrow> string \<Rightarrow> bool" where
  "ends_with p s \<longleftrightarrow> length p \<le> length s \<and> drop (length s - length p) s = p"

fun contains :: "string \<Rightarrow> string \<Rightarrow> bool" where
  "contains p [] = (p = [])"
| "contains p (c # cs) = (starts_with p (c # cs) \<or> contains p cs)"

text \<open>The parts of the manifest (\<^verbatim>\<open>Manifest\<close> of \<^verbatim>\<open>./manifest\<close>) that the stages below read.\<close>

datatype repository = RepoString string | RepoObject "string option"

record translation =
  translation_id :: string
  translation_path :: string

record localization =
  languageId :: string
  loc_translations :: "translation list"

record contributes =
  localizations :: "localization list option"

record manifest =
  repository :: "repository option"
  license :: "string option"
  icon :: "string option"
  contributes :: "contributes option"

text \<open>\<^verbatim>\<open>IPackageOptions\<close>, \<^verbatim>\<open>IFile\<close>, \<^verbatim>\<open>IAsset\<close> and \<^verbatim>\<open>BaseProcessor\<close>.\<close>

record package_options =
  opt_baseContentUrl :: "string option"
  opt_baseImagesUrl :: "string option"

datatype file_contents = Text string | Buffer string

record ifile =
  path :: string
  contents :: "file_contents option"
  localPath :: "string option"

record asset =
  asset_type :: string
  asset_path :: string

record base_processor =
  assets :: "asset list"
  vsix :: "(string \<times> string option) list"


section \<open>The Markdown stage\<close>

record markdown_processor = base_processor +
  name :: string
  regexp :: "string \<Rightarrow> bool"
  assetType :: string
  baseContentUrl :: "string option"
  baseImagesUrl :: "string option"
  repositoryUrl :: "string option"
  isGitHub :: bool

text \<open>\<^verbatim>\<open>/^https:\/\/github\.com\/|^git@github\.com:/.test(repository || '')\<close>\<close>

definition isGitHubRepository :: "string option \<Rightarrow> bool" where
  "isGitHubRepository url =
     (let r = (if truthy url then to_string url else [])
      in starts_with ''https://github.com/'' r \<or> starts_with ''git@github.com:'' r)"

text \<open>
  \<^verbatim>\<open>/github\.com\/([^/]+)\/([^/]+)(\/|$)/.exec(repository)\<close>. At one position: the
  literal text, then the longest run without a slash (not empty) followed by a slash,
  then the longest run without a slash (not empty); a shorter run is never followed by
  what the expression wants next. \<open>github_exec\<close> takes the leftmost position.
\<close>

definition github_at :: "string \<Rightarrow> (string \<times> string) option" where
  "github_at s =
     (if starts_with ''github.com/'' s then
        let rest = drop 11 s;
            account = takeWhile (\<lambda>c. c \<noteq> CHR ''/'') rest;
            after = dropWhile (\<lambda>c. c \<noteq> CHR ''/'') rest
        in if account = [] \<or> after = [] then None
           else
             let repo = takeWhile (\<lambda>c. c \<noteq> CHR ''/'') (tl after)
             in if repo = [] then None else Some (account, repo)
      else None)"

fun github_exec :: "string \<Rightarrow> (string \<times> string) option" where
  "github_exec [] = None"
| "github_exec (c # cs) =
     (case github_at (c # cs) of Some m \<Rightarrow> Some m | None \<Rightarrow> github_exec cs)"

text \<open>\<^verbatim>\<open>match[2].replace(/\.git$/i, '')\<close>\<close>

definition strip_git :: "string \<Rightarrow> string" where
  "strip_git s = (if ends_with ''.git'' (toLowerCase s) then take (length s - 4) s else s)"

text \<open>\<^verbatim>\<open>guessBaseUrls\<close>: the content base, the image base and the repository URL.\<close>

definition guessBaseUrls :: "manifest \<Rightarrow> (string \<times> string \<times> string) option" where
  "guessBaseUrls m =
     (let url =
            (case repository m of
               Some (RepoString s) \<Rightarrow> Some s
             | Some (RepoObject (Some u)) \<Rightarrow> Some u
             | _ \<Rightarrow> None)
      in if \<not> truthy url then None
         else
           (case github_exec (to_string url) of
              None \<Rightarrow> None
            | Some (account, repo) \<Rightarrow>
                let repositoryName = strip_git repo
                in Some (''https://github.com/'' @ account @ ''/'' @ repositoryName @ ''/blob/master'',
                         ''https://github.com/'' @ account @ ''/'' @ repositoryName @ ''/raw/master'',
                         ''https://github.com/'' @ account @ ''/'' @ repositoryName)))"

definition MarkdownProcessor ::
  "manifest \<Rightarrow> string \<Rightarrow> (string \<Rightarrow> bool) \<Rightarrow> string \<Rightarrow> package_options \<Rightarrow> markdown_processor" where
  "MarkdownProcessor m nm re ty options =
     (let guess = guessBaseUrls m;
          repo = map_option (\<lambda>(content, images, url). url) guess
      in \<lparr> assets = [], vsix = [],
           name = nm, regexp = re, assetType = ty,
           baseContentUrl =
             js_or (opt_baseContentUrl options) (map_option (\<lambda>(content, images, url). content) guess),
           baseImagesUrl =
             js_or (js_or (opt_baseImagesUrl options) (opt_baseContentUrl options))
               (map_option (\<lambda>(content, images, url). images) guess),
           repositoryUrl = repo,
           isGitHub = isGitHubRepository repo \<rparr>)"

text \<open>
  The two instances: \<^verbatim>\<open>/^extension\/readme.md$/i\<close> and \<^verbatim>\<open>/^extension\/changelog.md$/i\<close>.
  The dot of these expressions is not escaped: it stands for any character but a line
  terminator. \<open>ci_dot_match\<close> matches a whole string against lower-case literals and dots.
\<close>

definition ci_dot_match :: "string \<Rightarrow> string \<Rightarrow> bool" where
  "ci_dot_match pat s \<longleftrightarrow>
     list_all2 (\<lambda>p c. if p = CHR ''.'' then c \<noteq> LF \<and> c \<noteq> CR else to_lower c = p) pat s"

definition ReadmeProcessor :: "manifest \<Rightarrow> package_options \<Rightarrow> markdown_processor" where
  "ReadmeProcessor m options =
     MarkdownProcessor m ''README.md'' (ci_dot_match ''extension/readme.md'')
       ''Microsoft.VisualStudio.Services.Content.Details'' options"

definition ChangelogProcessor :: "manifest \<Rightarrow> package_options \<Rightarrow> markdown_processor" where
  "ChangelogProcessor m options =
     MarkdownProcessor m ''CHANGELOG.md'' (ci_dot_match ''extension/changelog.md'')
       ''Microsoft.VisualStudio.Services.Content.Changelog'' options"


subsection \<open>Links and images\<close>

text \<open>
  \<^verbatim>\<open>/(!?)\[([^\]\[]*|!\[[^\]\[]*]\([^\)]+\))\]\(([^\)]+)\)/g\<close> matched at the start of a
  string. Every repetition of the expression runs over a class that excludes the
  character wanted next, so the longest run is the only one that can succeed, and the
  two alternatives of the title exclude each other: the matcher is a function. It
  returns the three groups and the text after the match.
\<close>

definition not_bracket :: "char \<Rightarrow> bool" where
  "not_bracket c \<longleftrightarrow> c \<noteq> CHR '']'' \<and> c \<noteq> CHR ''[''"

definition not_paren :: "char \<Rightarrow> bool" where
  "not_paren c \<longleftrightarrow> c \<noteq> CHR '')''"

text \<open>\<^verbatim>\<open>\]\(([^\)]+)\)\<close>: the link and the text after the closing parenthesis.\<close>

definition link_tail :: "string \<Rightarrow> (string \<times> string) option" where
  "link_tail s =
     (if starts_with '']('' s then
        let link = takeWhile not_paren (drop 2 s); after = dropWhile not_paren (drop 2 s)
        in if link = [] \<or> after = [] then None else Some (link, tl after)
      else None)"

text \<open>\<^verbatim>\<open>!\[[^\]\[]*]\([^\)]+\)\<close>: an image as the title of a link.\<close>

definition inner_image :: "string \<Rightarrow> (string \<times> string) option" where
  "inner_image s =
     (if starts_with ''!['' s then
        (case link_tail (dropWhile not_bracket (drop 2 s)) of
           None \<Rightarrow> None
         | Some (link, rest) \<Rightarrow>
             Some (''!['' @ takeWhile not_bracket (drop 2 s) @ '']('' @ link @ '')'', rest))
      else None)"

definition title_and_link :: "string \<Rightarrow> (string \<times> string \<times> string) option" where
  "title_and_link s =
     (case link_tail (dropWhile not_bracket s) of
        Some (link, rest) \<Rightarrow> Some (takeWhile not_bracket s, link, rest)
      | None \<Rightarrow>
          (case inner_image s of
             None \<Rightarrow> None
           | Some (img, after) \<Rightarrow>
               (case link_tail after of
                  None \<Rightarrow> None
                | Some (link, rest) \<Rightarrow> Some (img, link, rest))))"

definition markdownPathRegex :: "string \<Rightarrow> (string \<times> string \<times> string \<times> string) option" where
  "markdownPathRegex s =
     (if starts_with ''!['' s then
        map_option (\<lambda>(title, link, rest). (''!'', title, link, rest)) (title_and_link (drop 2 s))
      else if starts_with ''['' s then
        map_option (\<lambda>(title, link, rest). ([], title, link, rest)) (title_and_link (drop 1 s))
      else None)"

text \<open>\<^verbatim>\<open>!/^\w+:\/\//.test(link) && link[0] !== '#'\<close>\<close>

definition isLinkRelative :: "string \<Rightarrow> bool" where
  "isLinkRelative link \<longleftrightarrow>
     \<not> (takeWhile is_word link \<noteq> [] \<and> starts_with ''://'' (dropWhile is_word link))
     \<and> \<not> starts_with ''#'' link"

lemma take_drop_While_length: "length (takeWhile P xs) + length (dropWhile P xs) = length xs"
  by (metis length_append takeWhile_dropWhile_id)

lemma link_tail_length: "link_tail s = Some (link, rest) \<Longrightarrow> length link + length rest + 3 \<le> length s"
  using take_drop_While_length [of not_paren "drop 2 s"]
  by (cases "dropWhile not_paren (drop 2 s)")
     (auto simp: link_tail_def Let_def starts_with_def split: if_splits)
lemma inner_image_length: "inner_image s = Some (img, rest) \<Longrightarrow> length img + length rest \<le> length s"
  using take_drop_While_length [of not_bracket "drop 2 s"]
  by (auto simp: inner_image_def starts_with_def split: if_splits option.splits
      dest!: link_tail_length)
lemma title_and_link_length:
  "title_and_link s = Some (title, link, rest) \<Longrightarrow> length title + length rest < length s"
  using take_drop_While_length [of not_bracket s]
  by (auto simp: title_and_link_def split: option.splits
      dest!: link_tail_length inner_image_length)
lemma markdownPathRegex_length:
  "markdownPathRegex s = Some (isImage, title, link, rest) \<Longrightarrow> length title < length s \<and> length rest < length s"
  by (auto simp: markdownPathRegex_def split: if_splits dest!: title_and_link_length)

text \<open>
  \<^verbatim>\<open>contents.replace(markdownPathRegex, urlReplace)\<close>: the matches are taken from left
  to right, and \<^verbatim>\<open>urlReplace\<close> is called on each in that order; it rewrites the title
  by the same replacement before it builds its result. An exception of \<^verbatim>\<open>urlReplace\<close>
  ends the replacement. \<open>urljoin\<close> stands for the npm package url-join.
\<close>

function replaceLinks :: "(string list \<Rightarrow> string) \<Rightarrow> 'a markdown_processor_scheme \<Rightarrow> string \<Rightarrow> error + string" where
  "replaceLinks urljoin p [] = Inr []"
| "replaceLinks urljoin p (c # cs) =
     (case markdownPathRegex (c # cs) of
        None \<Rightarrow> (case replaceLinks urljoin p cs of Inl e \<Rightarrow> Inl e | Inr out \<Rightarrow> Inr (c # out))
      | Some (isImage, title, link, rest) \<Rightarrow>
          if \<not> truthy (baseContentUrl p) \<and> \<not> truthy (baseImagesUrl p) \<and> isLinkRelative link
          then Inl (BrokenReference (isImage \<noteq> []) link)
          else
            (case replaceLinks urljoin p title of
               Inl e \<Rightarrow> Inl e
             | Inr title' \<Rightarrow>
                 let prefix = (if isImage \<noteq> [] then baseImagesUrl p else baseContentUrl p);
                     replacement =
                       (if \<not> truthy prefix \<or> \<not> isLinkRelative link
                        then isImage @ ''['' @ title' @ '']('' @ link @ '')''
                        else isImage @ ''['' @ title' @ '']('' @ urljoin [to_string prefix, link] @ '')'')
                 in (case replaceLinks urljoin p rest of
                       Inl e \<Rightarrow> Inl e
                     | Inr out \<Rightarrow> Inr (replacement @ out))))"
  by pat_completeness auto
termination
  apply (relation "measure (\<lambda>(u, p, s). length s)")
  apply (auto dest: markdownPathRegex_length)
  done



subsection \<open>Issue references\<close>

text \<open>
  \<^verbatim>\<open>/(\s|\n)([\w\d_-]+\/[\w\d_-]+)?#(\d+)\b/g\<close> matched at the start of a string. Each
  run is the longest one: the character wanted after a run is outside its class.
  \<open>owner_repo\<close> is the optional group, \<open>sharp_number\<close> is what follows it, the sharp
  sign, the digits and the word boundary; both return what they matched and the text
  after it.
\<close>

definition owner_repo :: "string \<Rightarrow> (string \<times> string) option" where
  "owner_repo t =
     (let owner = takeWhile is_name_char t; t1 = dropWhile is_name_char t;
          repo = takeWhile is_name_char (drop 1 t1); t2 = dropWhile is_name_char (drop 1 t1)
      in if owner \<noteq> [] \<and> starts_with ''/'' t1 \<and> repo \<noteq> [] then Some (owner @ ''/'' @ repo, t2)
         else None)"

definition sharp_number :: "string \<Rightarrow> (string \<times> string) option" where
  "sharp_number t =
     (let issueNumber = takeWhile is_digit (drop 1 t); rest = dropWhile is_digit (drop 1 t)
      in if starts_with ''#'' t \<and> issueNumber \<noteq> [] \<and> (rest = [] \<or> \<not> is_word (hd rest))
         then Some (issueNumber, rest)
         else None)"

text \<open>
  The whole expression: a white-space character, then the group and the rest, and when
  that fails the rest without the group. The result holds the whole match, the three
  groups and the text after the match.
\<close>

definition markdownIssueRegex ::
  "string \<Rightarrow> (string \<times> string \<times> string option \<times> string \<times> string) option" where
  "markdownIssueRegex s =
     (case s of
        [] \<Rightarrow> None
      | w # t \<Rightarrow>
          if \<not> is_space w then None
          else
            (case (case owner_repo t of
                     None \<Rightarrow> None
                   | Some (ownerAndRepositoryName, t2) \<Rightarrow>
                       map_option
                         (\<lambda>(issueNumber, rest).
                            (w # ownerAndRepositoryName @ ''#'' @ issueNumber, [w],
                             Some ownerAndRepositoryName, issueNumber, rest))
                         (sharp_number t2)) of
               Some m \<Rightarrow> Some m
             | None \<Rightarrow>
                 map_option
                   (\<lambda>(issueNumber, rest). (w # ''#'' @ issueNumber, [w], None, issueNumber, rest))
                   (sharp_number t)))"

text \<open>
  \<^verbatim>\<open>issueReplace\<close>. \<^verbatim>\<open>ownerAndRepositoryName.split('/', 2)\<close> gives the owner and the
  repository name; a missing piece is \<^verbatim>\<open>undefined\<close>.
\<close>

definition nth_option :: "'a list \<Rightarrow> nat \<Rightarrow> 'a option" where
  "nth_option xs i = (if i < length xs then Some (xs ! i) else None)"

definition issueReplace ::
  "(string list \<Rightarrow> string) \<Rightarrow> 'a markdown_processor_scheme \<Rightarrow>
     string \<Rightarrow> string \<Rightarrow> string option \<Rightarrow> string \<Rightarrow> error + string" where
  "issueReplace urljoin p all prefix ownerAndRepositoryName issueNumber =
     (let pieces =
            (if truthy ownerAndRepositoryName
             then take 2 (split_on (\<lambda>c. c = CHR ''/'') (to_string ownerAndRepositoryName))
             else []);
          owner = nth_option pieces 0;
          repositoryName = nth_option pieces 1
      in if isGitHub p then
           if truthy owner \<and> truthy repositoryName \<and> issueNumber \<noteq> [] then
             Inr (prefix @ ''['' @ to_string owner @ ''/'' @ to_string repositoryName @ ''#'' @
                  issueNumber @ '']('' @
                  urljoin [''https://github.com'', to_string owner, to_string repositoryName,
                           ''issues'', issueNumber] @ '')'')
           else if \<not> truthy owner \<and> \<not> truthy repositoryName \<and> issueNumber \<noteq> [] then
             (case repositoryUrl p of
                None \<Rightarrow> Inl TypeError
              | Some url \<Rightarrow>
                  Inr (prefix @ ''[#'' @ issueNumber @ '']('' @
                       urljoin [url, ''issues'', issueNumber] @ '')''))
           else Inr all
         else Inr all)"

lemma starts_with_char: "starts_with [c] t \<longleftrightarrow> t = c # drop 1 t"
  by (cases t) (auto simp: starts_with_def)

lemma sharp_number_eq: "sharp_number t = Some (n, rest) \<Longrightarrow> t = ''#'' @ n @ rest"
proof -
  assume a: "sharp_number t = Some (n, rest)"
  then have "starts_with ''#'' t" and "drop 1 t = n @ rest"
    by (auto simp: sharp_number_def Let_def split: if_splits)
  then show ?thesis
    by (metis append_Cons append_Nil starts_with_char)
qed

lemma owner_repo_eq: "owner_repo t = Some (nm, t2) \<Longrightarrow> t = nm @ t2"
proof -
  assume a: "owner_repo t = Some (nm, t2)"
  define t1 where "t1 = dropWhile is_name_char t"
  from a have s: "starts_with ''/'' t1"
    and nm: "nm = takeWhile is_name_char t @ ''/'' @ takeWhile is_name_char (drop 1 t1)"
    and t2: "t2 = dropWhile is_name_char (drop 1 t1)"
    by (auto simp: owner_repo_def Let_def t1_def split: if_splits)
  have "t = takeWhile is_name_char t @ t1"
    by (simp add: t1_def)
  also from s have "t1 = CHR ''/'' # drop 1 t1"
    by (simp add: starts_with_char)
  also have "drop 1 t1 = takeWhile is_name_char (drop 1 t1) @ t2"
    by (simp add: t2)
  finally show ?thesis
    by (simp add: nm)
qed

lemma markdownIssueRegex_split:
  assumes "markdownIssueRegex s = Some (all, prefix, ownerAndRepositoryName, issueNumber, rest)"
  shows "s = all @ rest \<and> all \<noteq> []"
  using assms
  by (auto simp: markdownIssueRegex_def split: list.splits if_splits option.splits
      dest!: sharp_number_eq owner_repo_eq)

lemma markdownIssueRegex_length:
  "markdownIssueRegex s = Some (all, prefix, ownerAndRepositoryName, issueNumber, rest) \<Longrightarrow>
   length rest < length s"
  by (drule markdownIssueRegex_split) (cases all, auto)

text \<open>\<^verbatim>\<open>contents.replace(markdownIssueRegex, issueReplace)\<close>\<close>

function replaceIssues ::
  "(string list \<Rightarrow> string) \<Rightarrow> 'a markdown_processor_scheme \<Rightarrow> string \<Rightarrow> error + string" where
  "replaceIssues urljoin p [] = Inr []"
| "replaceIssues urljoin p (c # cs) =
     (case markdownIssueRegex (c # cs) of
        None \<Rightarrow> (case replaceIssues urljoin p cs of Inl e \<Rightarrow> Inl e | Inr out \<Rightarrow> Inr (c # out))
      | Some (all, prefix, ownerAndRepositoryName, issueNumber, rest) \<Rightarrow>
          (case issueReplace urljoin p all prefix ownerAndRepositoryName issueNumber of
             Inl e \<Rightarrow> Inl e
           | Inr replacement \<Rightarrow>
               (case replaceIssues urljoin p rest of
                  Inl e \<Rightarrow> Inl e
                | Inr out \<Rightarrow> Inr (replacement @ out))))"
  by pat_completeness auto
termination
  by (relation "measure (\<lambda>(u, p, s). length s)") (auto dest: markdownIssueRegex_length)








text \<open>
  url-join is a library outside this repository, so the replacements take it as the
  parameter \<open>urljoin\<close>. To evaluate them at concrete inputs, \<open>join_slash\<close> joins parts
  that neither start nor end with a slash by single slashes, as url-join does.
\<close>

definition join_slash :: "string list \<Rightarrow> string" where
  "join_slash parts = (case parts of [] \<Rightarrow> [] | x # xs \<Rightarrow> foldl (\<lambda>a b. a @ ''/'' @ b) x xs)"
















lemma constructed_github_iff:
  "isGitHub (MarkdownProcessor m nm re ty options) \<longleftrightarrow> guessBaseUrls m \<noteq> None"
  by (cases "guessBaseUrls m")
     (auto simp: MarkdownProcessor_def Let_def isGitHubRepository_def truthy_def to_string_def
        starts_with_def guessBaseUrls_def split: option.splits if_splits)





subsection \<open>Relative references and base URLs\<close>





lemma no_bracket_no_match: "CHR ''['' \<notin> set s \<Longrightarrow> markdownPathRegex s = None"
  by (cases s; cases "tl s") (auto simp: markdownPathRegex_def starts_with_def)

lemma replaceLinks_no_bracket: "CHR ''['' \<notin> set s \<Longrightarrow> replaceLinks u p s = Inr s"
  by (induction s) (simp_all add: no_bracket_no_match)



























subsection \<open>Content policy and \<^verbatim>\<open>onFile\<close>\<close>

text \<open>The result of \<^verbatim>\<open>url.parse\<close>, as far as \<^verbatim>\<open>onFile\<close> reads it.\<close>

record url =
  protocol :: "string option"
  host :: "string option"
  url_path :: "string option"
  pathname :: "string option"

text \<open>
  What \<^verbatim>\<open>onFile\<close> calls outside this file: \<^verbatim>\<open>util.normalize\<close>, url-join,
  \<^verbatim>\<open>readFile\<close> of a local path, the \<^verbatim>\<open>src\<close> attributes of the \<^verbatim>\<open>img\<close> elements and the
  number of \<^verbatim>\<open>svg\<close> elements that markdown-it and cheerio find in a text,
  \<^verbatim>\<open>decodeURI\<close> (which may throw) and \<^verbatim>\<open>url.parse\<close>.
\<close>

record externals =
  util_normalize :: "string \<Rightarrow> string"
  urljoin :: "string list \<Rightarrow> string"
  readFile :: "string option \<Rightarrow> error + string"
  img_src :: "string \<Rightarrow> string option list"
  svg_count :: "string \<Rightarrow> nat"
  decodeURI :: "string \<Rightarrow> error + string"
  url_parse :: "string \<Rightarrow> url"

definition TrustedSVGSources :: "string list" where
  "TrustedSVGSources =
    [''api.bintray.com'', ''api.travis-ci.com'', ''api.travis-ci.org'', ''app.fossa.io'',
     ''badge.buildkite.com'', ''badge.fury.io'', ''badge.waffle.io'', ''badgen.net'',
     ''badges.frapsoft.com'', ''badges.gitter.im'', ''badges.greenkeeper.io'',
     ''cdn.travis-ci.com'', ''cdn.travis-ci.org'', ''ci.appveyor.com'', ''circleci.com'',
     ''cla.opensource.microsoft.com'', ''codacy.com'', ''codeclimate.com'', ''codecov.io'',
     ''coveralls.io'', ''david-dm.org'', ''deepscan.io'', ''dev.azure.com'', ''docs.rs'',
     ''flat.badgen.net'', ''gemnasium.com'', ''githost.io'', ''gitlab.com'', ''godoc.org'',
     ''goreportcard.com'', ''img.shields.io'', ''isitmaintained.com'',
     ''marketplace.visualstudio.com'', ''nodesecurity.io'', ''opencollective.com'', ''snyk.io'',
     ''travis-ci.com'', ''travis-ci.org'', ''visualstudio.com'', ''vsmarketplacebadge.apphb.com'',
     ''www.bithound.io'', ''www.versioneye.com'']"

text \<open>
  \<^verbatim>\<open>isHostTrusted\<close>, over the list of trusted hosts; the code uses
  \<^const>\<open>TrustedSVGSources\<close>. A host that is \<^verbatim>\<open>null\<close> has no \<^verbatim>\<open>toLowerCase\<close>.
\<close>

definition isHostTrusted :: "string list \<Rightarrow> string option \<Rightarrow> error + bool" where
  "isHostTrusted trusted h =
     (case h of None \<Rightarrow> Inl TypeError | Some s \<Rightarrow> Inr (toLowerCase s \<in> set trusted))"

text \<open>
  \<^verbatim>\<open>/^data:$/i.test(srcUrl.protocol) && /^image$/i.test(srcUrl.host) && /\/svg/i.test(srcUrl.path)\<close>
\<close>

definition is_svg_data_url :: "url \<Rightarrow> bool" where
  "is_svg_data_url srcUrl \<longleftrightarrow>
     toLowerCase (to_string (protocol srcUrl)) = ''data:''
     \<and> toLowerCase (to_string (host srcUrl)) = ''image''
     \<and> contains ''/svg'' (toLowerCase (to_string (url_path srcUrl)))"

text \<open>The callback of \<^verbatim>\<open>$('img').each\<close>, for the \<^verbatim>\<open>src\<close> attribute of one image.\<close>

definition checkImage :: "externals \<Rightarrow> string list \<Rightarrow> string option \<Rightarrow> error + unit" where
  "checkImage ext trusted attr =
     (case decodeURI ext (case attr of None \<Rightarrow> ''undefined'' | Some s \<Rightarrow> s) of
        Inl e \<Rightarrow> Inl e
      | Inr src \<Rightarrow>
          let srcUrl = url_parse ext src in
          if is_svg_data_url srcUrl then Inl (SvgDataUrl src)
          else if toLowerCase (to_string (protocol srcUrl)) \<noteq> ''https:'' then Inl (NotHttps src)
          else if ends_with ''.svg'' (toLowerCase (to_string (pathname srcUrl))) then
            (case isHostTrusted trusted (host srcUrl) of
               Inl e \<Rightarrow> Inl e
             | Inr ok \<Rightarrow> if ok then Inr () else Inl (UntrustedSvg src))
          else Inr ())"

fun checkImages :: "externals \<Rightarrow> string list \<Rightarrow> string option list \<Rightarrow> error + unit" where
  "checkImages ext trusted [] = Inr ()"
| "checkImages ext trusted (attr # attrs) =
     (case checkImage ext trusted attr of
        Inl e \<Rightarrow> Inl e
      | Inr _ \<Rightarrow> checkImages ext trusted attrs)"

text \<open>
  \<^verbatim>\<open>read(file)\<close>: the contents of the file when it has any (a buffer is decoded, an
  empty string counts as none), else the local file.
\<close>

definition read :: "externals \<Rightarrow> ifile \<Rightarrow> error + string" where
  "read ext file =
     (case contents file of
        Some (Buffer b) \<Rightarrow> Inr b
      | Some (Text s) \<Rightarrow> if s \<noteq> [] then Inr s else readFile ext (localPath file)
      | None \<Rightarrow> readFile ext (localPath file))"

text \<open>
  \<^verbatim>\<open>MarkdownProcessor.onFile\<close> for a file the processor selects, up to the rendering:
  the contents are read, a placeholder README is refused, and the links and the issue
  references are replaced.
\<close>

definition rewrite :: "externals \<Rightarrow> markdown_processor \<Rightarrow> ifile \<Rightarrow> error + string" where
  "rewrite ext p file =
     (case read ext file of
        Inl e \<Rightarrow> Inl e
      | Inr text \<Rightarrow>
          if contains ''This is the README for your extension '' text then Inl PlaceholderReadme
          else
            (case replaceLinks (urljoin ext) p text of
               Inl e \<Rightarrow> Inl e
             | Inr text1 \<Rightarrow> replaceIssues (urljoin ext) p text1))"

text \<open>
  \<^verbatim>\<open>MarkdownProcessor.onFile\<close>, with the list of trusted hosts as a parameter: the
  processor with the asset added and the file with the rewritten contents, or the error
  thrown. The rewritten text is rendered for the checks only.
\<close>

definition onFile ::
  "externals \<Rightarrow> string list \<Rightarrow> markdown_processor \<Rightarrow> ifile \<Rightarrow> error + markdown_processor \<times> ifile" where
  "onFile ext trusted p file =
     (let npath = util_normalize ext (path file) in
      if \<not> regexp p npath then Inr (p, file)
      else
        let p' = p\<lparr>assets := assets p @ [\<lparr>asset_type = assetType p, asset_path = npath\<rparr>]\<rparr> in
        case rewrite ext p file of
          Inl e \<Rightarrow> Inl e
        | Inr text \<Rightarrow>
            (case checkImages ext trusted (img_src ext text) of
               Inl e \<Rightarrow> Inl e
             | Inr _ \<Rightarrow>
                 if svg_count ext text > 0 then Inl SvgTag
                 else Inr (p', \<lparr>path = path file, contents = Some (Buffer text), localPath = None\<rparr>)))"

text \<open>An image source that is an inline SVG data URI: it decodes, and parses as one.\<close>

definition svg_data_uri :: "externals \<Rightarrow> string option \<Rightarrow> bool" where
  "svg_data_uri ext attr =
     (case attr of
        None \<Rightarrow> False
      | Some s \<Rightarrow>
          (case decodeURI ext s of
             Inl e \<Rightarrow> False
           | Inr src \<Rightarrow> is_svg_data_url (url_parse ext src)))"

lemma checkImage_svg_data:
  "svg_data_uri ext attr \<Longrightarrow> \<exists>src. checkImage ext trusted attr = Inl (SvgDataUrl src)"
  by (auto simp: svg_data_uri_def checkImage_def Let_def split: option.splits sum.splits)

lemma checkImages_svg_data:
  "attr \<in> set attrs \<Longrightarrow> svg_data_uri ext attr \<Longrightarrow> \<exists>e. checkImages ext trusted attrs = Inl e"
proof (induction attrs)
  case Nil
  then show ?case by simp
next
  case (Cons a attrs)
  show ?case
  proof (cases "checkImage ext trusted a")
    case (Inl e)
    then show ?thesis by simp
  next
    case (Inr u)
    with Cons.prems checkImage_svg_data [of ext a trusted] have "attr \<in> set attrs"
      by auto
    with Cons Inr show ?thesis by simp
  qed
qed

text \<open>
  C5. For every list of trusted hosts: when the processor selects the file and the text
  it renders has an image whose source is an inline SVG data URI, \<^verbatim>\<open>onFile\<close> throws;
  the check of that image throws the SVG data URL error whatever the trusted hosts are.
\<close>

theorem svg_data_uri_fatal:
  assumes "regexp p (util_normalize ext (path file))"
    and "rewrite ext p file = Inr text"
    and "attr \<in> set (img_src ext text)"
    and "svg_data_uri ext attr"
  shows "(\<exists>e. onFile ext trusted p file = Inl e)
    \<and> (\<exists>src. checkImage ext trusted attr = Inl (SvgDataUrl src))"
proof -
  from checkImages_svg_data [OF assms(3,4)]
  obtain e where "checkImages ext trusted (img_src ext text) = Inl e"
    by blast
  with assms(1,2) have "onFile ext trusted p file = Inl e"
    by (simp add: onFile_def)
  with checkImage_svg_data [OF assms(4)] show ?thesis
    by blast
qed



section \<open>The License stage\<close>

record license_processor = base_processor +
  didFindLicense :: bool
  license_filter :: "string \<Rightarrow> bool"

text \<open>
  \<^verbatim>\<open>/^SEE LICENSE IN (.*)$/.exec(manifest.license || '')\<close>: the group, when the text
  starts with the literal words and has no line terminator after them (the dot matches
  none, and \<^verbatim>\<open>$\<close> without the flag \<^verbatim>\<open>m\<close> is the end of the text).
\<close>

definition see_license_in :: "string \<Rightarrow> string option" where
  "see_license_in s =
     (if starts_with ''SEE LICENSE IN '' s \<and> LF \<notin> set (drop 15 s) \<and> CR \<notin> set (drop 15 s)
      then Some (drop 15 s) else None)"

text \<open>\<^verbatim>\<open>/^extension\/license(\.(md|txt))?$/i.test(name)\<close>\<close>

definition default_license_name :: "string \<Rightarrow> bool" where
  "default_license_name nm \<longleftrightarrow>
     toLowerCase nm \<in> {''extension/license'', ''extension/license.md'', ''extension/license.txt''}"

text \<open>
  The constructor. \<open>new_RegExp src\<close> stands for \<^verbatim>\<open>new RegExp(src)\<close> of the JavaScript
  engine: it throws a \<^verbatim>\<open>SyntaxError\<close> when \<open>src\<close> is not a regular expression, and
  gives the \<^verbatim>\<open>test\<close> of the compiled expression otherwise (without flags, \<^verbatim>\<open>test\<close> has
  no state). The source text of the expression is built from the manifest's text as it
  is; when the constructor of the expression throws, so does this constructor.
\<close>

definition LicenseProcessor ::
  "(string \<Rightarrow> error + (string \<Rightarrow> bool)) \<Rightarrow> manifest \<Rightarrow> error + license_processor" where
  "LicenseProcessor new_RegExp m =
     (let match = see_license_in (if truthy (license m) then to_string (license m) else [])
      in if \<not> truthy match then
           Inr \<lparr> assets = [], vsix = [(''license'', None)],
                 didFindLicense = False, license_filter = default_license_name \<rparr>
         else
           (case new_RegExp (''^extension/'' @ to_string match @ ''$'') of
              Inl e \<Rightarrow> Inl e
            | Inr test \<Rightarrow>
                Inr \<lparr> assets = [], vsix = [(''license'', None)],
                      didFindLicense = False, license_filter = test \<rparr>))"

text \<open>
  \<^verbatim>\<open>LicenseProcessor.onFile\<close>; \<open>extname\<close> stands for \<^verbatim>\<open>path.extname\<close> and
  \<open>norm\<close> for \<^verbatim>\<open>util.normalize\<close>. The file's path may get the extension \<^verbatim>\<open>.txt\<close>.
\<close>

definition License_onFile ::
  "(string \<Rightarrow> string) \<Rightarrow> (string \<Rightarrow> string) \<Rightarrow> license_processor \<Rightarrow> ifile \<Rightarrow> license_processor \<times> ifile" where
  "License_onFile norm extname p file =
     (if \<not> didFindLicense p then
        let normalizedPath = norm (path file) in
        if license_filter p normalizedPath then
          let bare = (extname normalizedPath = []);
              file' = (if bare then file\<lparr>path := path file @ ''.txt''\<rparr> else file);
              normalizedPath' = (if bare then normalizedPath @ ''.txt'' else normalizedPath)
          in (p\<lparr>assets := assets p @
                   [\<lparr>asset_type = ''Microsoft.VisualStudio.Services.Content.License'',
                     asset_path = normalizedPath'\<rparr>],
                 vsix := AList.update ''license'' (Some normalizedPath') (vsix p),
                 didFindLicense := True\<rparr>, file')
        else (p, file)
      else (p, file))"

text \<open>
  The stage over the included files, in the order in which they reach it: every file is
  passed to \<^verbatim>\<open>onFile\<close>, which may change the processor and the path of the file.
\<close>

fun License_files ::
  "(string \<Rightarrow> string) \<Rightarrow> (string \<Rightarrow> string) \<Rightarrow> license_processor \<Rightarrow> ifile list
    \<Rightarrow> license_processor \<times> ifile list" where
  "License_files norm extname p [] = (p, [])"
| "License_files norm extname p (file # files) =
     (let (p1, file') = License_onFile norm extname p file;
          (p2, files') = License_files norm extname p1 files
      in (p2, file' # files'))"

text \<open>
  What ECMAScript says of the expressions made of literal characters and dots. The syntax
  characters are \<^verbatim>\<open>^ $ \ . * + ? ( ) [ ] { } |\<close>; every other character of an expression
  stands for itself, and the dot stands for every character but a line terminator. An
  engine reads dots when, for every sequence \<open>q\<close> of such characters and dots, it
  compiles \<^verbatim>\<open>^\<close>\<open>q\<close>\<^verbatim>\<open>$\<close>, and the compiled expression accepts the texts that agree with
  \<open>q\<close> position by position.
\<close>

definition literal_char :: "char \<Rightarrow> bool" where
  "literal_char c \<longleftrightarrow>
     c \<notin> {CHR ''^'', CHR ''$'', CHR 0x5C, CHR ''.'', CHR ''*'', CHR ''+'', CHR ''?'',
          CHR ''('', CHR '')'', CHR ''['', CHR '']'', CHR ''{'', CHR ''}'', CHR ''|''}"

definition dot_match :: "char \<Rightarrow> char \<Rightarrow> bool" where
  "dot_match p c \<longleftrightarrow> (if p = CHR ''.'' then c \<noteq> LF \<and> c \<noteq> CR else c = p)"

definition reads_dots :: "(string \<Rightarrow> error + (string \<Rightarrow> bool)) \<Rightarrow> bool" where
  "reads_dots new_RegExp \<longleftrightarrow>
     (\<forall>q. (\<forall>c\<in>set q. literal_char c \<or> c = CHR ''.'') \<longrightarrow>
        (\<exists>test. new_RegExp (''^'' @ q @ ''$'') = Inr test \<and> (\<forall>s. test s \<longleftrightarrow> list_all2 dot_match q s)))"

text \<open>
  A reference matcher for the regular expressions made of literal characters, the dot,
  the star after one of these, and the anchors \<^verbatim>\<open>^\<close> at the start and \<^verbatim>\<open>$\<close> at the end,
  to evaluate the filter at concrete inputs. The dot matches every character but a line
  terminator.
\<close>

fun re_here :: "string \<Rightarrow> string \<Rightarrow> bool" where
  "re_here [] s = True"
| "re_here [c] s =
     (if c = CHR ''$'' then s = []
      else (case s of [] \<Rightarrow> False | x # xs \<Rightarrow> (if c = CHR ''.'' then x \<noteq> LF \<and> x \<noteq> CR else x = c)))"
| "re_here (c # d # re) s =
     (if d = CHR ''*'' then
        re_here re s \<or>
        (case s of
           [] \<Rightarrow> False
         | x # xs \<Rightarrow> (if c = CHR ''.'' then x \<noteq> LF \<and> x \<noteq> CR else x = c) \<and> re_here (c # d # re) xs)
      else
        (case s of
           [] \<Rightarrow> False
         | x # xs \<Rightarrow> (if c = CHR ''.'' then x \<noteq> LF \<and> x \<noteq> CR else x = c) \<and> re_here (d # re) xs))"

fun re_search :: "string \<Rightarrow> string \<Rightarrow> bool" where
  "re_search re [] = re_here re []"
| "re_search re (x # xs) = (re_here re (x # xs) \<or> re_search re xs)"

definition RegExp_simple :: "string \<Rightarrow> string \<Rightarrow> bool" where
  "RegExp_simple src s = (if starts_with ''^'' src then re_here (drop 1 src) s else re_search src s)"

text \<open>
  A reference engine on that fragment: it refuses an expression with an opening
  parenthesis that nothing closes (and no backslash or bracket that could make the
  parenthesis a literal), as every engine does, and reads the others by the matcher.
\<close>

definition unterminated_group :: "string \<Rightarrow> bool" where
  "unterminated_group src \<longleftrightarrow>
     CHR ''('' \<in> set src \<and> CHR '')'' \<notin> set src \<and> CHR 0x5C \<notin> set src \<and> CHR ''['' \<notin> set src"

definition RegExp_reference :: "string \<Rightarrow> error + (string \<Rightarrow> bool)" where
  "RegExp_reference src = (if unterminated_group src then Inl (SyntaxError src) else Inr (RegExp_simple src))"

text \<open>
  A reference for \<^verbatim>\<open>path.extname\<close> of Node.js on forward-slash paths: the text from the
  last dot of the last segment, when that dot is not the first character of the segment.
\<close>

definition extname_posix :: "string \<Rightarrow> string" where
  "extname_posix s =
     (let b = last_segment s
      in if b = ''..'' \<or> CHR ''.'' \<notin> set (tl b) then []
         else CHR ''.'' # rev (takeWhile (\<lambda>c. c \<noteq> CHR ''.'') (rev b)))"


section \<open>The Icon stage\<close>

record icon_processor = base_processor +
  icon_path :: "string option"
  didFindIcon :: bool

text \<open>The constructor: \<^verbatim>\<open>this.icon = manifest.icon ? `extension/${manifest.icon}` : null\<close>.\<close>

definition IconProcessor :: "manifest \<Rightarrow> icon_processor" where
  "IconProcessor m =
     \<lparr> assets = [], vsix = [(''icon'', None)],
       icon_path = (if truthy (icon m) then Some (''extension/'' @ to_string (icon m)) else None),
       didFindIcon = False \<rparr>"

text \<open>\<^verbatim>\<open>IconProcessor.onFile\<close>, which returns the file as it is, and \<^verbatim>\<open>IconProcessor.onEnd\<close>.\<close>

definition Icon_onFile :: "(string \<Rightarrow> string) \<Rightarrow> icon_processor \<Rightarrow> ifile \<Rightarrow> icon_processor" where
  "Icon_onFile norm p file =
     (let normalizedPath = norm (path file) in
      if Some normalizedPath = icon_path p then
        p\<lparr>didFindIcon := True,
          assets := assets p @
            [\<lparr>asset_type = ''Microsoft.VisualStudio.Services.Icons.Default'',
              asset_path = normalizedPath\<rparr>],
          vsix := AList.update ''icon'' (icon_path p) (vsix p)\<rparr>
      else p)"

definition Icon_onEnd :: "icon_processor \<Rightarrow> error + unit" where
  "Icon_onEnd p =
     (if truthy (icon_path p) \<and> \<not> didFindIcon p then Inl (IconNotFound (to_string (icon_path p)))
      else Inr ())"

text \<open>
  The stage over the included files, in the order in which they reach it:
  \<^verbatim>\<open>processFiles\<close> passes every file to \<^verbatim>\<open>onFile\<close> and calls \<^verbatim>\<open>onEnd\<close> afterwards.
\<close>

definition Icon_files :: "(string \<Rightarrow> string) \<Rightarrow> manifest \<Rightarrow> ifile list \<Rightarrow> icon_processor" where
  "Icon_files norm m files = foldl (Icon_onFile norm) (IconProcessor m) files"


section \<open>The Localization stage\<close>

record nls_processor = base_processor +
  nls_translations :: "(string \<times> string) list"

text \<open>
  An object made by \<^verbatim>\<open>Object.create(null)\<close> and used as a dictionary is an association
  list in insertion order, written by \<^const>\<open>AList.update\<close> and read by \<^const>\<open>map_of\<close>.
  \<^verbatim>\<open>Object.keys\<close> lists the keys that are array indices first, in ascending order, then
  the other keys in insertion order.
\<close>

definition nat_of_digits :: "string \<Rightarrow> nat" where
  "nat_of_digits s = foldl (\<lambda>a c. 10 * a + (of_char c - 48)) 0 s"

definition is_array_index :: "string \<Rightarrow> bool" where
  "is_array_index s \<longleftrightarrow>
     s \<noteq> [] \<and> list_all is_digit s \<and> (s = ''0'' \<or> hd s \<noteq> CHR ''0'') \<and>
     nat_of_digits s < 4294967295"

definition object_keys :: "(string \<times> 'v) list \<Rightarrow> string list" where
  "object_keys kvs =
     sort_key nat_of_digits (filter is_array_index (map fst kvs))
     @ filter (\<lambda>k. \<not> is_array_index k) (map fst kvs)"

text \<open>\<^verbatim>\<open>translation.path.replace(/^\.[\/\\]/, '')\<close>\<close>

definition strip_dot_slash :: "string \<Rightarrow> string" where
  "strip_dot_slash s = (if starts_with ''./'' s \<or> starts_with [CHR ''.'', CHR 0x5C] s then drop 2 s else s)"

text \<open>
  The body of the inner loop of the constructor, and the two loops.
  \<^verbatim>\<open>String.prototype.toUpperCase\<close> belongs to the JavaScript engine and follows the
  Unicode case mapping, so the stage takes it as the parameter \<open>toUpperCase\<close>.
\<close>

definition addTranslation ::
  "(string \<Rightarrow> string) \<Rightarrow> (string \<Rightarrow> string) \<Rightarrow> string \<Rightarrow> (string \<times> string) list \<Rightarrow> translation
    \<Rightarrow> (string \<times> string) list" where
  "addTranslation toUpperCase norm lang acc t =
     (if translation_id t = ''vscode'' \<and> translation_path t \<noteq> [] then
        AList.update (toUpperCase lang) (''extension/'' @ norm (strip_dot_slash (translation_path t))) acc
      else acc)"

definition translationsByLanguage ::
  "(string \<Rightarrow> string) \<Rightarrow> (string \<Rightarrow> string) \<Rightarrow> localization list \<Rightarrow> (string \<times> string) list" where
  "translationsByLanguage toUpperCase norm locs =
     foldl (\<lambda>acc loc. foldl (addTranslation toUpperCase norm (languageId loc)) acc (loc_translations loc))
       [] locs"

text \<open>The second loop inverts the dictionary, in the order of \<^verbatim>\<open>Object.keys\<close>.\<close>

definition invert :: "(string \<times> string) list \<Rightarrow> (string \<times> string) list" where
  "invert byLanguage =
     foldl (\<lambda>acc lang. case map_of byLanguage lang of
                          None \<Rightarrow> acc
                        | Some tpath \<Rightarrow> AList.update tpath lang acc)
       [] (object_keys byLanguage)"

definition NLSProcessor :: "(string \<Rightarrow> string) \<Rightarrow> (string \<Rightarrow> string) \<Rightarrow> manifest \<Rightarrow> nls_processor" where
  "NLSProcessor toUpperCase norm m =
     \<lparr> assets = [], vsix = [],
       nls_translations =
         (case contributes m of
            None \<Rightarrow> []
          | Some c \<Rightarrow>
              (case localizations c of
                 None \<Rightarrow> []
               | Some locs \<Rightarrow> if locs = [] then []
                            else invert (translationsByLanguage toUpperCase norm locs))) \<rparr>"

text \<open>
  \<^verbatim>\<open>NLSProcessor.onFile\<close>, which returns the file as it is. The type of the asset is
  \<^verbatim>\<open>`Microsoft.VisualStudio.Code.Translation.${language}`\<close>.
\<close>

definition translationType :: "string \<Rightarrow> string" where
  "translationType language = ''Microsoft.VisualStudio.Code.Translation.'' @ language"

definition NLS_onFile :: "(string \<Rightarrow> string) \<Rightarrow> nls_processor \<Rightarrow> ifile \<Rightarrow> nls_processor" where
  "NLS_onFile norm p file =
     (let normalizedPath = norm (path file);
          language = map_of (nls_translations p) normalizedPath
      in if truthy language then
           p\<lparr>assets := assets p @
               [\<lparr>asset_type = translationType (to_string language),
                 asset_path = normalizedPath\<rparr>]\<rparr>
         else p)"

definition NLS_files ::
  "(string \<Rightarrow> string) \<Rightarrow> (string \<Rightarrow> string) \<Rightarrow> manifest \<Rightarrow> ifile list \<Rightarrow> nls_processor" where
  "NLS_files toUpperCase norm m files = foldl (NLS_onFile norm) (NLSProcessor toUpperCase norm m) files"

text \<open>
  The specification's words: the translation paths the manifest declares, with their
  languages, in the order of the declarations, and the last path declared for a
  language. Every translation entry of every localization counts; a path is given as
  the virtual path of its file, and language ids are compared in upper case.
\<close>

definition localizationsOf :: "manifest \<Rightarrow> localization list" where
  "localizationsOf m =
     (case contributes m of
        None \<Rightarrow> []
      | Some c \<Rightarrow> (case localizations c of None \<Rightarrow> [] | Some locs \<Rightarrow> locs))"

definition declared ::
  "(string \<Rightarrow> string) \<Rightarrow> (string \<Rightarrow> string) \<Rightarrow> manifest \<Rightarrow> (string \<times> string) list" where
  "declared toUpperCase norm m =
     concat (map (\<lambda>loc.
       map (\<lambda>t. (toUpperCase (languageId loc),
                 ''extension/'' @ norm (strip_dot_slash (translation_path t))))
         (loc_translations loc)) (localizationsOf m))"

definition lastOf :: "(string \<times> string) list \<Rightarrow> string \<Rightarrow> string option" where
  "lastOf entries lang =
     (case filter (\<lambda>(l, tpath). l = lang) entries of
        [] \<Rightarrow> None
      | x # xs \<Rightarrow> Some (snd (last (x # xs))))"

definition lastDeclared ::
  "(string \<Rightarrow> string) \<Rightarrow> (string \<Rightarrow> string) \<Rightarrow> manifest \<Rightarrow> string \<Rightarrow> string option" where
  "lastDeclared toUpperCase norm m lang = lastOf (declared toUpperCase norm m) lang"

text \<open>
  The amended words: only the translation entries whose id is \<^verbatim>\<open>vscode\<close> and whose path
  is not empty count.
\<close>

definition declaredVscode ::
  "(string \<Rightarrow> string) \<Rightarrow> (string \<Rightarrow> string) \<Rightarrow> manifest \<Rightarrow> (string \<times> string) list" where
  "declaredVscode toUpperCase norm m =
     concat (map (\<lambda>loc.
       map (\<lambda>t. (toUpperCase (languageId loc),
                 ''extension/'' @ norm (strip_dot_slash (translation_path t))))
         (filter (\<lambda>t. translation_id t = ''vscode'' \<and> translation_path t \<noteq> [])
            (loc_translations loc))) (localizationsOf m))"

definition lastDeclaredVscode ::
  "(string \<Rightarrow> string) \<Rightarrow> (string \<Rightarrow> string) \<Rightarrow> manifest \<Rightarrow> string \<Rightarrow> string option" where
  "lastDeclaredVscode toUpperCase norm m lang = lastOf (declaredVscode toUpperCase norm m) lang"

text \<open>
  Modelled from the spec: \<^verbatim>\<open>util.normalize\<close> of \<^verbatim>\<open>./util\<close> is not among the sources.
  A virtual path is the canonical forward-slash path, so this instance, used to evaluate
  the stages at concrete inputs, turns every backslash into a slash. The stages
  themselves take the function as the parameter \<open>norm\<close>.
\<close>

definition normalize_slashes :: "string \<Rightarrow> string" where
  "normalize_slashes s = map (\<lambda>c. if c = CHR 0x5C then CHR ''/'' else c) s"

text \<open>
  \<^verbatim>\<open>toUpperCase\<close> on the texts of ASCII characters, to evaluate the stage at concrete
  inputs: the letters a to z become A to Z.
\<close>

definition upper_ascii :: "string \<Rightarrow> string" where
  "upper_ascii s = map (\<lambda>c. if is_lower c then char_of (of_char c - (32::nat)) else c) s"



section \<open>Properties of the Icon stage\<close>

lemma Icon_fold:
  "icon_path p = Some ip \<Longrightarrow>
   icon_path (foldl (Icon_onFile norm) p files) = Some ip
   \<and> (didFindIcon (foldl (Icon_onFile norm) p files) \<longleftrightarrow>
        didFindIcon p \<or> (\<exists>f\<in>set files. norm (path f) = ip))
   \<and> assets (foldl (Icon_onFile norm) p files) =
        assets p @ replicate (length (filter (\<lambda>f. norm (path f) = ip) files))
          \<lparr>asset_type = ''Microsoft.VisualStudio.Services.Icons.Default'', asset_path = ip\<rparr>"
proof (induction files arbitrary: p)
  case Nil
  then show ?case by simp
next
  case (Cons f files)
  have "icon_path (Icon_onFile norm p f) = Some ip"
    using Cons.prems by (simp add: Icon_onFile_def Let_def)
  from Cons.IH [OF this] Cons.prems show ?case
    by (auto simp: Icon_onFile_def Let_def replicate_append_same)
qed

lemma Icon_fold_none:
  "icon_path p = None \<Longrightarrow> foldl (Icon_onFile norm) p files = p"
  by (induction files) (auto simp: Icon_onFile_def Let_def)

lemma distinct_count:
  "distinct (map g xs) \<Longrightarrow> x \<in> set xs \<Longrightarrow> length (filter (\<lambda>y. g y = g x) xs) = 1"
proof (induction xs)
  case Nil
  then show ?case by simp
next
  case (Cons a xs)
  show ?case
  proof (cases "g a = g x")
    case True
    with Cons.prems have "filter (\<lambda>y. g y = g x) xs = []"
      by (auto simp: filter_empty_conv image_iff)
    with True show ?thesis by simp
  next
    case False
    with Cons show ?thesis by auto
  qed
qed

text \<open>
  C6. After the stage has seen the included files, its \<^verbatim>\<open>onEnd\<close> rejects if and only
  if the manifest declares an icon and no included file's normalized path equals
  \<^verbatim>\<open>extension/<icon>\<close>. The stage registers one icon asset for each included file with
  that normalized path; the normalized paths of the included files are distinct
  (virtual paths are unique within a run), so when the declared icon is among them,
  exactly one icon asset is registered.
\<close>

theorem icon_stage:
  "((\<exists>e. Icon_onEnd (Icon_files norm m files) = Inl e) \<longleftrightarrow>
      truthy (icon m) \<and> \<not> (\<exists>f\<in>set files. norm (path f) = ''extension/'' @ to_string (icon m)))
   \<and> (truthy (icon m) \<longrightarrow>
        assets (Icon_files norm m files) =
          replicate (length (filter (\<lambda>f. norm (path f) = ''extension/'' @ to_string (icon m)) files))
            \<lparr>asset_type = ''Microsoft.VisualStudio.Services.Icons.Default'',
              asset_path = ''extension/'' @ to_string (icon m)\<rparr>)
   \<and> (truthy (icon m) \<and> distinct (map (\<lambda>f. norm (path f)) files)
        \<and> (\<exists>f\<in>set files. norm (path f) = ''extension/'' @ to_string (icon m)) \<longrightarrow>
        assets (Icon_files norm m files) =
          [\<lparr>asset_type = ''Microsoft.VisualStudio.Services.Icons.Default'',
            asset_path = ''extension/'' @ to_string (icon m)\<rparr>])"
proof (cases "truthy (icon m)")
  case False
  then have "icon_path (IconProcessor m) = None"
    by (simp add: IconProcessor_def)
  with False show ?thesis
    by (simp add: Icon_files_def Icon_fold_none Icon_onEnd_def truthy_def)
next
  case True
  define ip where "ip = ''extension/'' @ to_string (icon m)"
  have i: "icon_path (IconProcessor m) = Some ip"
    using True by (simp add: IconProcessor_def ip_def)
  note f = Icon_fold [OF i, of norm files]
  have 1: "(\<exists>e. Icon_onEnd (Icon_files norm m files) = Inl e) \<longleftrightarrow>
      truthy (icon m) \<and> \<not> (\<exists>f\<in>set files. norm (path f) = ip)"
    using f True by (auto simp: Icon_files_def Icon_onEnd_def truthy_def IconProcessor_def ip_def)
  have 2: "assets (Icon_files norm m files) =
          replicate (length (filter (\<lambda>f. norm (path f) = ip) files))
            \<lparr>asset_type = ''Microsoft.VisualStudio.Services.Icons.Default'', asset_path = ip\<rparr>"
    using f by (simp add: Icon_files_def IconProcessor_def)
  have 3: "distinct (map (\<lambda>f. norm (path f)) files) \<and> (\<exists>f\<in>set files. norm (path f) = ip) \<longrightarrow>
      length (filter (\<lambda>f. norm (path f) = ip) files) = 1"
    using distinct_count [of "\<lambda>f. norm (path f)" files] by auto
  from 1 2 3 show ?thesis
    unfolding ip_def by simp
qed


text \<open>An extension with a declared icon, with and without the icon file.\<close>

definition icon_manifest :: manifest where
  "icon_manifest =
     \<lparr>repository = None, license = None, icon = Some ''images/icon.png'', contributes = None\<rparr>"

definition icon_files :: "ifile list" where
  "icon_files =
     [\<lparr>path = ''extension/package.json'', contents = None, localPath = Some ''package.json''\<rparr>,
      \<lparr>path = ''extension/images/icon.png'', contents = None, localPath = Some ''images/icon.png''\<rparr>]"

theorem icon_stage_witness:
  "truthy (icon icon_manifest)
   \<and> distinct (map (\<lambda>f. normalize_slashes (path f)) icon_files)
   \<and> assets (Icon_files normalize_slashes icon_manifest icon_files)
      = [\<lparr>asset_type = ''Microsoft.VisualStudio.Services.Icons.Default'',
          asset_path = ''extension/images/icon.png''\<rparr>]
   \<and> Icon_onEnd (Icon_files normalize_slashes icon_manifest icon_files) = Inr ()
   \<and> Icon_onEnd (Icon_files normalize_slashes icon_manifest (take 1 icon_files))
      = Inl (IconNotFound ''extension/images/icon.png'')"
proof -
  have h: "truthy (icon icon_manifest)"
    "distinct (map (\<lambda>f. normalize_slashes (path f)) icon_files)"
    "\<exists>f\<in>set icon_files. normalize_slashes (path f) = ''extension/'' @ to_string (icon icon_manifest)"
    by code_simp+
  have e: "Icon_onEnd (Icon_files normalize_slashes icon_manifest icon_files) = Inr ()"
    "Icon_onEnd (Icon_files normalize_slashes icon_manifest (take 1 icon_files))
      = Inl (IconNotFound ''extension/images/icon.png'')"
    "''extension/'' @ to_string (icon icon_manifest) = ''extension/images/icon.png''"
    by code_simp+
  from icon_stage [of normalize_slashes icon_manifest icon_files] h
  have "assets (Icon_files normalize_slashes icon_manifest icon_files) =
      [\<lparr>asset_type = ''Microsoft.VisualStudio.Services.Icons.Default'',
        asset_path = ''extension/'' @ to_string (icon icon_manifest)\<rparr>]"
    by blast
  with h e show ?thesis
    by simp
qed



section \<open>Properties of the License stage\<close>

lemma see_license_in_words:
  "LF \<notin> set X \<Longrightarrow> CR \<notin> set X \<Longrightarrow> see_license_in (''SEE LICENSE IN '' @ X) = Some X"
  by (simp add: see_license_in_def starts_with_def)

lemma LicenseProcessor_words:
  assumes "license m = Some (''SEE LICENSE IN '' @ X)" and "X \<noteq> []"
    and "LF \<notin> set X" and "CR \<notin> set X"
  shows "LicenseProcessor new_RegExp m =
     (case new_RegExp (''^extension/'' @ X @ ''$'') of
        Inl e \<Rightarrow> Inl e
      | Inr test \<Rightarrow>
          Inr \<lparr> assets = [], vsix = [(''license'', None)],
                didFindLicense = False, license_filter = test \<rparr>)"
  using assms see_license_in_words [OF assms(3,4)]
  by (simp add: LicenseProcessor_def truthy_def to_string_def del: append.simps)

lemma License_files_found:
  "didFindLicense p \<Longrightarrow> License_files norm extname p files = (p, files)"
  by (induction files) (simp_all add: License_onFile_def)

lemma License_files_first:
  assumes "\<not> didFindLicense p"
  shows "License_files norm extname p files =
     (case dropWhile (\<lambda>f. \<not> license_filter p (norm (path f))) files of
        [] \<Rightarrow> (p, files)
      | f # fs \<Rightarrow>
          (p\<lparr>assets := assets p @
               [\<lparr>asset_type = ''Microsoft.VisualStudio.Services.Content.License'',
                 asset_path = (if extname (norm (path f)) = [] then norm (path f) @ ''.txt''
                               else norm (path f))\<rparr>],
             vsix := AList.update ''license''
               (Some (if extname (norm (path f)) = [] then norm (path f) @ ''.txt'' else norm (path f)))
               (vsix p),
             didFindLicense := True\<rparr>,
           takeWhile (\<lambda>f. \<not> license_filter p (norm (path f))) files
             @ (if extname (norm (path f)) = [] then f\<lparr>path := path f @ ''.txt''\<rparr> else f) # fs))"
  using assms
proof (induction files)
  case Nil
  then show ?case by simp
next
  case (Cons a files)
  show ?case
  proof (cases "license_filter p (norm (path a))")
    case True
    then show ?thesis
      using Cons(2) License_files_found [of _ norm extname files]
      by (simp add: License_onFile_def Let_def)
  next
    case False
    then have "License_onFile norm extname p a = (p, a)"
      by (simp add: License_onFile_def)
    then have s: "License_files norm extname p (a # files) =
        (fst (License_files norm extname p files), a # snd (License_files norm extname p files))"
      by (simp add: case_prod_beta)
    note ih = Cons.IH [OF Cons.prems]
    show ?thesis
    proof (cases "dropWhile (\<lambda>f. \<not> license_filter p (norm (path f))) files")
      case Nil
      with ih have "License_files norm extname p files = (p, files)"
        by (simp del: dropWhile_eq_Nil_conv)
      with s False Nil show ?thesis
        by (simp del: dropWhile_eq_Nil_conv)
    next
      case (Cons f fs)
      with ih s False show ?thesis
        by simp
    qed
  qed
qed

lemma re_here_dots:
  "\<forall>c\<in>set q. literal_char c \<or> c = CHR ''.'' \<Longrightarrow> re_here (q @ ''$'') s = list_all2 dot_match q s"
proof (induction q arbitrary: s)
  case Nil
  then show ?case by (cases s) simp_all
next
  case (Cons c q)
  obtain d re where d: "q @ ''$'' = d # re" "d \<noteq> CHR ''*''"
    using Cons(2) by (cases q) (auto simp: literal_char_def)
  have ih: "re_here (d # re) xs = list_all2 dot_match q xs" for xs
    using Cons d(1) by simp
  show ?case
  proof (cases s)
    case Nil
    with d show ?thesis by simp
  next
    case (Cons x xs)
    have "dot_match c x \<longleftrightarrow> (if c = CHR ''.'' then x \<noteq> LF \<and> x \<noteq> CR else x = c)"
      by (simp add: dot_match_def)
    with d ih Cons show ?thesis by simp
  qed
qed

lemma reads_dots_reference: "reads_dots RegExp_reference"
  unfolding reads_dots_def
proof (intro allI impI)
  fix q :: string
  assume q: "\<forall>c\<in>set q. literal_char c \<or> c = CHR ''.''"
  then have "CHR ''('' \<notin> set q"
    by (auto simp: literal_char_def)
  then have "\<not> unterminated_group (''^'' @ q @ ''$'')"
    by (simp add: unterminated_group_def)
  then have "RegExp_reference (''^'' @ q @ ''$'') = Inr (RegExp_simple (''^'' @ q @ ''$''))"
    by (simp add: RegExp_reference_def)
  moreover have "RegExp_simple (''^'' @ q @ ''$'') s = list_all2 dot_match q s" for s
    using re_here_dots [OF q] by (simp add: RegExp_simple_def starts_with_def)
  ultimately show "\<exists>test. RegExp_reference (''^'' @ q @ ''$'') = Inr test
      \<and> (\<forall>s. test s \<longleftrightarrow> list_all2 dot_match q s)"
    by blast
qed

lemma dot_match_apply:
  "dot_match p c \<longleftrightarrow> (if p = CHR ''.'' then c \<noteq> LF \<and> c \<noteq> CR else c = p)"
  by (simp add: dot_match_def)

lemma dots_accept:
  "list_all2 dot_match X (map (\<lambda>c. if c = CHR ''.'' then CHR ''x'' else c) X)"
  by (induction X) (simp_all add: dot_match_apply)

text \<open>
  C9. When the manifest's license is \<^verbatim>\<open>SEE LICENSE IN X\<close>, with \<open>X\<close> not empty and on
  one line, the License stage compiles the regular expression whose source is
  \<^verbatim>\<open>^extension/\<close>, then \<open>X\<close> as it is, then \<^verbatim>\<open>$\<close>. When the engine refuses that source,
  the constructor of the stage fails with the engine's error. Otherwise the filter of
  the stage is the compiled expression, and over the files that reach the stage the
  first file whose normalized path the expression accepts is the license: it is
  registered as the one license asset and as the license of the package, with the
  extension \<^verbatim>\<open>.txt\<close> added when the path has none, and the files before and after it
  are left as they are; when the expression accepts no path, nothing is registered. With
  an engine that reads dots and \<open>X\<close> made of characters that stand for themselves and
  dots, the filter accepts exactly the paths that agree with \<^verbatim>\<open>extension/\<close>\<open>X\<close> position
  by position, a dot of \<open>X\<close> agreeing with every character but a line terminator: when
  \<open>X\<close> has a dot, a path other than the literal \<^verbatim>\<open>extension/\<close>\<open>X\<close> is accepted.
\<close>

theorem license_pattern_unescaped:
  assumes "license m = Some (''SEE LICENSE IN '' @ X)" and "X \<noteq> []"
    and "LF \<notin> set X" and "CR \<notin> set X"
  shows "(\<forall>e. new_RegExp (''^extension/'' @ X @ ''$'') = Inl e \<longrightarrow>
            LicenseProcessor new_RegExp m = Inl e)
    \<and> (\<forall>test. new_RegExp (''^extension/'' @ X @ ''$'') = Inr test \<longrightarrow>
          (\<exists>p. LicenseProcessor new_RegExp m = Inr p
             \<and> license_filter p = test \<and> assets p = [] \<and> vsix p = [(''license'', None)]
             \<and> License_files norm extname p files =
                 (case dropWhile (\<lambda>f. \<not> test (norm (path f))) files of
                    [] \<Rightarrow> (p, files)
                  | f # fs \<Rightarrow>
                      (p\<lparr>assets :=
                           [\<lparr>asset_type = ''Microsoft.VisualStudio.Services.Content.License'',
                             asset_path = (if extname (norm (path f)) = [] then norm (path f) @ ''.txt''
                                           else norm (path f))\<rparr>],
                         vsix :=
                           [(''license'',
                             Some (if extname (norm (path f)) = [] then norm (path f) @ ''.txt''
                                   else norm (path f)))],
                         didFindLicense := True\<rparr>,
                       takeWhile (\<lambda>f. \<not> test (norm (path f))) files
                         @ (if extname (norm (path f)) = [] then f\<lparr>path := path f @ ''.txt''\<rparr> else f)
                         # fs))))
    \<and> (reads_dots new_RegExp \<and> (\<forall>c\<in>set X. literal_char c \<or> c = CHR ''.'') \<longrightarrow>
          (\<exists>p. LicenseProcessor new_RegExp m = Inr p
             \<and> (\<forall>s. license_filter p s \<longleftrightarrow> list_all2 dot_match (''extension/'' @ X) s)
             \<and> (CHR ''.'' \<in> set X \<longrightarrow>
                  license_filter p (''extension/'' @ map (\<lambda>c. if c = CHR ''.'' then CHR ''x'' else c) X)
                  \<and> ''extension/'' @ map (\<lambda>c. if c = CHR ''.'' then CHR ''x'' else c) X
                      \<noteq> ''extension/'' @ X)))"
proof -
  note L = LicenseProcessor_words [OF assms, of new_RegExp]
  have 1: "\<forall>e. new_RegExp (''^extension/'' @ X @ ''$'') = Inl e \<longrightarrow>
      LicenseProcessor new_RegExp m = Inl e"
    using L by simp
  have 2: "\<forall>test. new_RegExp (''^extension/'' @ X @ ''$'') = Inr test \<longrightarrow>
          (\<exists>p. LicenseProcessor new_RegExp m = Inr p
             \<and> license_filter p = test \<and> assets p = [] \<and> vsix p = [(''license'', None)]
             \<and> License_files norm extname p files =
                 (case dropWhile (\<lambda>f. \<not> test (norm (path f))) files of
                    [] \<Rightarrow> (p, files)
                  | f # fs \<Rightarrow>
                      (p\<lparr>assets :=
                           [\<lparr>asset_type = ''Microsoft.VisualStudio.Services.Content.License'',
                             asset_path = (if extname (norm (path f)) = [] then norm (path f) @ ''.txt''
                                           else norm (path f))\<rparr>],
                         vsix :=
                           [(''license'',
                             Some (if extname (norm (path f)) = [] then norm (path f) @ ''.txt''
                                   else norm (path f)))],
                         didFindLicense := True\<rparr>,
                       takeWhile (\<lambda>f. \<not> test (norm (path f))) files
                         @ (if extname (norm (path f)) = [] then f\<lparr>path := path f @ ''.txt''\<rparr> else f)
                         # fs)))"
  proof (intro allI impI)
    fix test
    assume t: "new_RegExp (''^extension/'' @ X @ ''$'') = Inr test"
    define p where "p = \<lparr> assets = [], vsix = [(''license'', None)],
                didFindLicense = False, license_filter = test \<rparr>"
    have c: "LicenseProcessor new_RegExp m = Inr p"
      using L t by (simp add: p_def)
    have p: "license_filter p = test" "assets p = []" "vsix p = [(''license'', None)]"
      "\<not> didFindLicense p"
      by (simp_all add: p_def)
    note F = License_files_first [OF p(4), of norm extname files, unfolded p(1,2,3)]
    have "License_files norm extname p files =
                 (case dropWhile (\<lambda>f. \<not> test (norm (path f))) files of
                    [] \<Rightarrow> (p, files)
                  | f # fs \<Rightarrow>
                      (p\<lparr>assets :=
                           [\<lparr>asset_type = ''Microsoft.VisualStudio.Services.Content.License'',
                             asset_path = (if extname (norm (path f)) = [] then norm (path f) @ ''.txt''
                                           else norm (path f))\<rparr>],
                         vsix :=
                           [(''license'',
                             Some (if extname (norm (path f)) = [] then norm (path f) @ ''.txt''
                                   else norm (path f)))],
                         didFindLicense := True\<rparr>,
                       takeWhile (\<lambda>f. \<not> test (norm (path f))) files
                         @ (if extname (norm (path f)) = [] then f\<lparr>path := path f @ ''.txt''\<rparr> else f)
                         # fs))"
    proof (cases "dropWhile (\<lambda>f. \<not> test (norm (path f))) files")
      case Nil
      with F show ?thesis by (simp del: dropWhile_eq_Nil_conv)
    next
      case (Cons f fs)
      with F show ?thesis by simp
    qed
    with c p(1,2,3) show "\<exists>p. LicenseProcessor new_RegExp m = Inr p
             \<and> license_filter p = test \<and> assets p = [] \<and> vsix p = [(''license'', None)]
             \<and> License_files norm extname p files =
                 (case dropWhile (\<lambda>f. \<not> test (norm (path f))) files of
                    [] \<Rightarrow> (p, files)
                  | f # fs \<Rightarrow>
                      (p\<lparr>assets :=
                           [\<lparr>asset_type = ''Microsoft.VisualStudio.Services.Content.License'',
                             asset_path = (if extname (norm (path f)) = [] then norm (path f) @ ''.txt''
                                           else norm (path f))\<rparr>],
                         vsix :=
                           [(''license'',
                             Some (if extname (norm (path f)) = [] then norm (path f) @ ''.txt''
                                   else norm (path f)))],
                         didFindLicense := True\<rparr>,
                       takeWhile (\<lambda>f. \<not> test (norm (path f))) files
                         @ (if extname (norm (path f)) = [] then f\<lparr>path := path f @ ''.txt''\<rparr> else f)
                         # fs))"
      by blast
  qed
  have 3: "reads_dots new_RegExp \<and> (\<forall>c\<in>set X. literal_char c \<or> c = CHR ''.'') \<longrightarrow>
          (\<exists>p. LicenseProcessor new_RegExp m = Inr p
             \<and> (\<forall>s. license_filter p s \<longleftrightarrow> list_all2 dot_match (''extension/'' @ X) s)
             \<and> (CHR ''.'' \<in> set X \<longrightarrow>
                  license_filter p (''extension/'' @ map (\<lambda>c. if c = CHR ''.'' then CHR ''x'' else c) X)
                  \<and> ''extension/'' @ map (\<lambda>c. if c = CHR ''.'' then CHR ''x'' else c) X
                      \<noteq> ''extension/'' @ X))"
  proof (intro impI)
    assume a: "reads_dots new_RegExp \<and> (\<forall>c\<in>set X. literal_char c \<or> c = CHR ''.'')"
    define q where "q = ''extension/'' @ X"
    have "\<forall>c\<in>set ''extension/''. literal_char c"
      by (simp add: literal_char_def)
    with a have "\<forall>c\<in>set q. literal_char c \<or> c = CHR ''.''"
      unfolding q_def by auto
    with a obtain test where t: "new_RegExp (''^'' @ q @ ''$'') = Inr test"
      and s: "\<And>s. test s \<longleftrightarrow> list_all2 dot_match q s"
      unfolding reads_dots_def by blast
    have src: "''^'' @ q @ ''$'' = ''^extension/'' @ X @ ''$''"
      by (simp add: q_def)
    define p where "p = \<lparr> assets = [], vsix = [(''license'', None)],
                didFindLicense = False, license_filter = test \<rparr>"
    have c: "LicenseProcessor new_RegExp m = Inr p"
      using L t unfolding src by (simp add: p_def)
    have f: "license_filter p s \<longleftrightarrow> list_all2 dot_match q s" for s
      using s by (simp add: p_def)
    have e: "list_all2 dot_match ''extension/'' ''extension/''"
      by (simp add: dot_match_apply)
    have "list_all2 dot_match q (''extension/'' @ map (\<lambda>c. if c = CHR ''.'' then CHR ''x'' else c) X)"
      unfolding q_def using e dots_accept by (rule list_all2_appendI)
    then have y: "license_filter p (''extension/'' @ map (\<lambda>c. if c = CHR ''.'' then CHR ''x'' else c) X)"
      using f by blast
    have n: "CHR ''.'' \<in> set X \<Longrightarrow> map (\<lambda>c. if c = CHR ''.'' then CHR ''x'' else c) X \<noteq> X"
    proof
      assume "CHR ''.'' \<in> set X" and eq: "map (\<lambda>c. if c = CHR ''.'' then CHR ''x'' else c) X = X"
      then have "CHR ''.'' \<in> set (map (\<lambda>c. if c = CHR ''.'' then CHR ''x'' else c) X)"
        by simp
      then show False
        by auto
    qed
    from c f y n show "\<exists>p. LicenseProcessor new_RegExp m = Inr p
             \<and> (\<forall>s. license_filter p s \<longleftrightarrow> list_all2 dot_match (''extension/'' @ X) s)
             \<and> (CHR ''.'' \<in> set X \<longrightarrow>
                  license_filter p (''extension/'' @ map (\<lambda>c. if c = CHR ''.'' then CHR ''x'' else c) X)
                  \<and> ''extension/'' @ map (\<lambda>c. if c = CHR ''.'' then CHR ''x'' else c) X
                      \<noteq> ''extension/'' @ X)"
      unfolding q_def by auto
  qed
  from 1 2 3 show ?thesis
    by blast
qed

text \<open>
  With the dot of \<^verbatim>\<open>LICENSE.md\<close> read as a regular expression, the stage takes a file
  whose path is not the literal path, ahead of the file with the literal path; and an
  \<open>X\<close> that is no regular expression stops the constructor.
\<close>

definition license_manifest :: manifest where
  "license_manifest =
     \<lparr>repository = None, license = Some ''SEE LICENSE IN LICENSE.md'', icon = None, contributes = None\<rparr>"

definition open_group_manifest :: manifest where
  "open_group_manifest =
     \<lparr>repository = None, license = Some ''SEE LICENSE IN ('', icon = None, contributes = None\<rparr>"

definition license_files :: "ifile list" where
  "license_files =
     [\<lparr>path = ''extension/package.json'', contents = None, localPath = Some ''package.json''\<rparr>,
      \<lparr>path = ''extension/LICENSExmd'', contents = None, localPath = Some ''LICENSExmd''\<rparr>,
      \<lparr>path = ''extension/LICENSE.md'', contents = None, localPath = Some ''LICENSE.md''\<rparr>]"

theorem license_pattern_unescaped_witness:
  "license license_manifest = Some (''SEE LICENSE IN '' @ ''LICENSE.md'')
   \<and> license open_group_manifest = Some (''SEE LICENSE IN '' @ ''('')
   \<and> LicenseProcessor RegExp_reference open_group_manifest = Inl (SyntaxError ''^extension/($'')
   \<and> reads_dots RegExp_reference
   \<and> (\<exists>p. LicenseProcessor RegExp_reference license_manifest = Inr p
        \<and> license_filter p ''extension/LICENSExmd''
        \<and> assets (fst (License_files normalize_slashes extname_posix p license_files))
            = [\<lparr>asset_type = ''Microsoft.VisualStudio.Services.Content.License'',
                asset_path = ''extension/LICENSExmd.txt''\<rparr>]
        \<and> vsix (fst (License_files normalize_slashes extname_posix p license_files))
            = [(''license'', Some ''extension/LICENSExmd.txt'')]
        \<and> map path (snd (License_files normalize_slashes extname_posix p license_files))
            = [''extension/package.json'', ''extension/LICENSExmd.txt'', ''extension/LICENSE.md''])"
proof -
  have h: "license license_manifest = Some (''SEE LICENSE IN '' @ ''LICENSE.md'')"
    "''LICENSE.md'' \<noteq> []" "LF \<notin> set ''LICENSE.md''" "CR \<notin> set ''LICENSE.md''"
    by code_simp+
  have g: "license open_group_manifest = Some (''SEE LICENSE IN '' @ ''('')"
    "''('' \<noteq> []" "LF \<notin> set ''(''" "CR \<notin> set ''(''"
    by code_simp+
  have u: "unterminated_group (''^extension/'' @ ''('' @ ''$'')"
    "\<not> unterminated_group (''^extension/'' @ ''LICENSE.md'' @ ''$'')"
    by code_simp+
  define test where "test = RegExp_simple (''^extension/'' @ ''LICENSE.md'' @ ''$'')"
  have e: "RegExp_reference (''^extension/'' @ ''('' @ ''$'') = Inl (SyntaxError ''^extension/($'')"
    "RegExp_reference (''^extension/'' @ ''LICENSE.md'' @ ''$'') = Inr test"
    using u by (simp_all add: RegExp_reference_def test_def)
  have 1: "LicenseProcessor RegExp_reference open_group_manifest = Inl (SyntaxError ''^extension/($'')"
    using license_pattern_unescaped [OF g, of RegExp_reference] e(1) by blast
  have d: "dropWhile (\<lambda>f. \<not> test (normalize_slashes (path f))) license_files = tl license_files"
    "takeWhile (\<lambda>f. \<not> test (normalize_slashes (path f))) license_files = [hd license_files]"
    "extname_posix ''extension/LICENSExmd'' = []"
    "normalize_slashes (path (hd (tl license_files))) = ''extension/LICENSExmd''"
    "tl license_files = hd (tl license_files) # tl (tl license_files)"
    "map path (hd license_files # hd (tl license_files)\<lparr>path := ''extension/LICENSExmd.txt''\<rparr>
        # tl (tl license_files))
      = [''extension/package.json'', ''extension/LICENSExmd.txt'', ''extension/LICENSE.md'']"
    "path (hd (tl license_files)) @ ''.txt'' = ''extension/LICENSExmd.txt''"
    unfolding test_def by code_simp+
  from license_pattern_unescaped [OF h, of RegExp_reference normalize_slashes extname_posix license_files] e(2)
  obtain p where p: "LicenseProcessor RegExp_reference license_manifest = Inr p"
    "license_filter p = test"
    and f: "License_files normalize_slashes extname_posix p license_files =
       (case dropWhile (\<lambda>f. \<not> test (normalize_slashes (path f))) license_files of
          [] \<Rightarrow> (p, license_files)
        | f # fs \<Rightarrow>
            (p\<lparr>assets :=
                 [\<lparr>asset_type = ''Microsoft.VisualStudio.Services.Content.License'',
                   asset_path = (if extname_posix (normalize_slashes (path f)) = []
                                 then normalize_slashes (path f) @ ''.txt''
                                 else normalize_slashes (path f))\<rparr>],
               vsix :=
                 [(''license'',
                   Some (if extname_posix (normalize_slashes (path f)) = []
                         then normalize_slashes (path f) @ ''.txt''
                         else normalize_slashes (path f)))],
               didFindLicense := True\<rparr>,
             takeWhile (\<lambda>f. \<not> test (normalize_slashes (path f))) license_files
               @ (if extname_posix (normalize_slashes (path f)) = [] then f\<lparr>path := path f @ ''.txt''\<rparr>
                  else f)
               # fs))"
    by blast
  have r: "License_files normalize_slashes extname_posix p license_files =
      (p\<lparr>assets :=
           [\<lparr>asset_type = ''Microsoft.VisualStudio.Services.Content.License'',
             asset_path = ''extension/LICENSExmd.txt''\<rparr>],
         vsix := [(''license'', Some ''extension/LICENSExmd.txt'')],
         didFindLicense := True\<rparr>,
       hd license_files # hd (tl license_files)\<lparr>path := ''extension/LICENSExmd.txt''\<rparr>
         # tl (tl license_files))"
    unfolding f d(1) by (subst d(5)) (simp add: d(2,3,4,7))
  have l: "\<forall>c\<in>set ''LICENSE.md''. literal_char c \<or> c = CHR ''.''"
    "CHR ''.'' \<in> set ''LICENSE.md''"
    "''extension/'' @ map (\<lambda>c. if c = CHR ''.'' then CHR ''x'' else c) ''LICENSE.md'' = ''extension/LICENSExmd''"
    by code_simp+
  note dots = license_pattern_unescaped [OF h, of RegExp_reference normalize_slashes extname_posix
      license_files, THEN conjunct2, THEN conjunct2, THEN mp, OF conjI [OF reads_dots_reference l(1)]]
  then obtain p' where p': "LicenseProcessor RegExp_reference license_manifest = Inr p'"
    and a: "CHR ''.'' \<in> set ''LICENSE.md'' \<longrightarrow>
      license_filter p' (''extension/'' @ map (\<lambda>c. if c = CHR ''.'' then CHR ''x'' else c) ''LICENSE.md'')
      \<and> ''extension/'' @ map (\<lambda>c. if c = CHR ''.'' then CHR ''x'' else c) ''LICENSE.md''
          \<noteq> ''extension/'' @ ''LICENSE.md''"
    by (elim exE conjE)
  from p(1) p' have q: "p' = p"
    by simp
  from a l(2) have "license_filter p (''extension/'' @ map (\<lambda>c. if c = CHR ''.'' then CHR ''x'' else c) ''LICENSE.md'')"
    unfolding q by (elim impE conjE)
  then have 2: "license_filter p ''extension/LICENSExmd''"
    unfolding l(3) .
  have 3: "assets (fst (License_files normalize_slashes extname_posix p license_files))
            = [\<lparr>asset_type = ''Microsoft.VisualStudio.Services.Content.License'',
                asset_path = ''extension/LICENSExmd.txt''\<rparr>]"
    "vsix (fst (License_files normalize_slashes extname_posix p license_files))
            = [(''license'', Some ''extension/LICENSExmd.txt'')]"
    unfolding r by simp_all
  have 4: "map path (snd (License_files normalize_slashes extname_posix p license_files))
            = [''extension/package.json'', ''extension/LICENSExmd.txt'', ''extension/LICENSE.md'']"
    unfolding r snd_conv by (rule d(6))
  have 5: "\<exists>p. LicenseProcessor RegExp_reference license_manifest = Inr p
        \<and> license_filter p ''extension/LICENSExmd''
        \<and> assets (fst (License_files normalize_slashes extname_posix p license_files))
            = [\<lparr>asset_type = ''Microsoft.VisualStudio.Services.Content.License'',
                asset_path = ''extension/LICENSExmd.txt''\<rparr>]
        \<and> vsix (fst (License_files normalize_slashes extname_posix p license_files))
            = [(''license'', Some ''extension/LICENSExmd.txt'')]
        \<and> map path (snd (License_files normalize_slashes extname_posix p license_files))
            = [''extension/package.json'', ''extension/LICENSExmd.txt'', ''extension/LICENSE.md'']"
    by (intro exI [of _ p] conjI) (fact p(1) 2 3 4)+
  show ?thesis
    by (intro conjI) (fact h(1) g(1) 1 reads_dots_reference 5)+
qed



section \<open>An inline SVG image in a README\<close>

text \<open>
  The externals at one input: the text of a README whose only element is an image with
  an SVG data URI as its source, what markdown-it and cheerio find in it, and what
  \<^verbatim>\<open>url.parse\<close> returns for that source. The host \<^verbatim>\<open>image\<close> that \<^verbatim>\<open>url.parse\<close> reads
  in the data URI is put among the trusted hosts.
\<close>

definition svg_readme :: string where
  "svg_readme = ''<img src=data:image/svg+xml;base64,PHN2Zy8+>''"

definition svg_externals :: externals where
  "svg_externals =
     \<lparr> util_normalize = normalize_slashes,
       urljoin = join_slash,
       readFile = (\<lambda>local. Inl (IOError ''ENOENT'')),
       img_src = (\<lambda>text. if text = svg_readme then [Some ''data:image/svg+xml;base64,PHN2Zy8+''] else []),
       svg_count = (\<lambda>text. 0),
       decodeURI = Inr,
       url_parse =
         (\<lambda>src. if src = ''data:image/svg+xml;base64,PHN2Zy8+''
                then \<lparr>protocol = Some ''data:'', host = Some ''image'',
                      url_path = Some ''/svg+xml;base64,PHN2Zy8+'',
                      pathname = Some ''/svg+xml;base64,PHN2Zy8+''\<rparr>
                else \<lparr>protocol = None, host = None, url_path = Some src, pathname = Some src\<rparr>) \<rparr>"

definition svg_processor :: markdown_processor where
  "svg_processor =
     ReadmeProcessor
       \<lparr>repository = Some (RepoString ''https://github.com/microsoft/vscode-vsce.git''),
        license = None, icon = None, contributes = None\<rparr>
       \<lparr>opt_baseContentUrl = None, opt_baseImagesUrl = None\<rparr>"

definition svg_file :: ifile where
  "svg_file = \<lparr>path = ''extension/README.md'', contents = Some (Text svg_readme), localPath = None\<rparr>"

theorem svg_data_uri_fatal_witness:
  "regexp svg_processor (util_normalize svg_externals (path svg_file))
   \<and> rewrite svg_externals svg_processor svg_file = Inr svg_readme
   \<and> Some ''data:image/svg+xml;base64,PHN2Zy8+'' \<in> set (img_src svg_externals svg_readme)
   \<and> svg_data_uri svg_externals (Some ''data:image/svg+xml;base64,PHN2Zy8+'')
   \<and> isl (onFile svg_externals [''image''] svg_processor svg_file)
   \<and> checkImage svg_externals [''image''] (Some ''data:image/svg+xml;base64,PHN2Zy8+'')
      = Inl (SvgDataUrl ''data:image/svg+xml;base64,PHN2Zy8+'')"
proof -
  have h: "regexp svg_processor (util_normalize svg_externals (path svg_file))"
    "rewrite svg_externals svg_processor svg_file = Inr svg_readme"
    "Some ''data:image/svg+xml;base64,PHN2Zy8+'' \<in> set (img_src svg_externals svg_readme)"
    "svg_data_uri svg_externals (Some ''data:image/svg+xml;base64,PHN2Zy8+'')"
    by code_simp+
  have e: "checkImage svg_externals [''image''] (Some ''data:image/svg+xml;base64,PHN2Zy8+'')
      = Inl (SvgDataUrl ''data:image/svg+xml;base64,PHN2Zy8+'')"
    by code_simp
  from svg_data_uri_fatal [OF h, of "[''image'']"]
  have "isl (onFile svg_externals [''image''] svg_processor svg_file)"
    by auto
  with h e show ?thesis
    by simp
qed



section \<open>Properties of the Localization stage\<close>

text \<open>
  For the proofs: one assignment \<^verbatim>\<open>translations[language] = path\<close>, the declared pairs
  of a list of localizations, and the asset that \<^verbatim>\<open>onFile\<close> adds for a normalized path.
\<close>

definition put :: "(string \<times> string) list \<Rightarrow> string \<times> string \<Rightarrow> (string \<times> string) list" where
  "put acc kv = AList.update (fst kv) (snd kv) acc"

definition declaredOf ::
  "(string \<Rightarrow> string) \<Rightarrow> (string \<Rightarrow> string) \<Rightarrow> localization list \<Rightarrow> (string \<times> string) list" where
  "declaredOf toUpperCase norm locs =
     concat (map (\<lambda>loc.
       map (\<lambda>t. (toUpperCase (languageId loc),
                 ''extension/'' @ norm (strip_dot_slash (translation_path t))))
         (filter (\<lambda>t. translation_id t = ''vscode'' \<and> translation_path t \<noteq> [])
            (loc_translations loc))) locs)"

lemma inner_fold:
  "foldl (addTranslation toUpperCase norm lang) acc ts =
   foldl put acc
     (map (\<lambda>t. (toUpperCase lang, ''extension/'' @ norm (strip_dot_slash (translation_path t))))
        (filter (\<lambda>t. translation_id t = ''vscode'' \<and> translation_path t \<noteq> []) ts))"
  by (induction ts arbitrary: acc) (simp_all add: addTranslation_def put_def)

lemma outer_fold:
  "foldl (\<lambda>acc loc. foldl (addTranslation toUpperCase norm (languageId loc)) acc (loc_translations loc)) acc locs =
   foldl put acc (declaredOf toUpperCase norm locs)"
  by (induction locs arbitrary: acc) (simp_all add: declaredOf_def inner_fold)

lemma map_of_put: "map_of (put acc x) k = (if k = fst x then Some (snd x) else map_of acc k)"
  by (simp add: put_def update_conv')

lemma map_of_put_fold:
  "map_of (foldl put acc xs) k =
     (case filter (\<lambda>(l, tpath). l = k) xs of
        [] \<Rightarrow> map_of acc k
      | y # ys \<Rightarrow> Some (snd (last (y # ys))))"
proof (induction xs arbitrary: acc)
  case Nil
  show ?case by simp
next
  case (Cons x xs)
  have "map_of (foldl put acc (x # xs)) k =
      (case filter (\<lambda>(l, tpath). l = k) xs of
         [] \<Rightarrow> map_of (put acc x) k
       | y # ys \<Rightarrow> Some (snd (last (y # ys))))"
    by (simp only: foldl_Cons Cons)
  then show ?case
    by (cases x; cases "filter (\<lambda>(l, tpath). l = k) xs") (auto simp: map_of_put)
qed

lemma declared_eq:
  "contributes m = Some c \<Longrightarrow> localizations c = Some locs \<Longrightarrow> declaredVscode toUpperCase norm m = declaredOf toUpperCase norm locs"
  by (simp add: declaredVscode_def declaredOf_def localizationsOf_def)

lemma byLanguage_last:
  assumes "contributes m = Some c" "localizations c = Some locs"
  shows "map_of (translationsByLanguage toUpperCase norm locs) lang = lastDeclaredVscode toUpperCase norm m lang"
proof -
  have "map_of (translationsByLanguage toUpperCase norm locs) lang =
      (case filter (\<lambda>(l, tpath). l = lang) (declaredOf toUpperCase norm locs) of
         [] \<Rightarrow> None
       | y # ys \<Rightarrow> Some (snd (last (y # ys))))"
    unfolding translationsByLanguage_def outer_fold map_of_put_fold by (simp split: list.splits)
  then show ?thesis
    unfolding lastDeclaredVscode_def lastOf_def declared_eq [OF assms] .
qed

lemma invert_fold_sound:
  assumes "\<forall>tp l. map_of acc tp = Some l \<longrightarrow> map_of bl l = Some tp"
    and "map_of (foldl (\<lambda>acc lang. case map_of bl lang of
                          None \<Rightarrow> acc
                        | Some tpath \<Rightarrow> AList.update tpath lang acc) acc keys) tp = Some l"
  shows "map_of bl l = Some tp"
  using assms
proof (induction keys arbitrary: acc)
  case Nil
  then show ?case by simp
next
  case (Cons k keys)
  show ?case
  proof (rule Cons.IH [OF _ Cons.prems(2) [simplified]])
    show "\<forall>tp l. map_of (case map_of bl k of None \<Rightarrow> acc | Some tpath \<Rightarrow> AList.update tpath k acc) tp = Some l
        \<longrightarrow> map_of bl l = Some tp"
      using Cons.prems(1) by (auto simp: update_conv' split: option.splits if_splits)
  qed
qed

lemma invert_sound: "map_of (invert bl) tp = Some l \<Longrightarrow> map_of bl l = Some tp"
  unfolding invert_def by (rule invert_fold_sound [of "[]"]) auto

lemma set_object_keys: "set (object_keys kvs) = fst ` set kvs"
  by (auto simp: object_keys_def)

lemma invert_fold_complete:
  assumes "l \<in> set keys" "map_of bl l = Some tp" "\<forall>k\<in>set keys. map_of bl k = Some tp \<longrightarrow> k = l"
  shows "map_of (foldl (\<lambda>acc lang. case map_of bl lang of
                          None \<Rightarrow> acc
                        | Some tpath \<Rightarrow> AList.update tpath lang acc) acc keys) tp = Some l"
  using assms
proof (induction keys rule: rev_induct)
  case Nil
  then show ?case by simp
next
  case (snoc k keys)
  show ?case
  proof (cases "k = l")
    case True
    with snoc.prems(2) show ?thesis
      by (simp add: update_conv')
  next
    case False
    have n: "map_of bl k \<noteq> Some tp"
    proof
      assume "map_of bl k = Some tp"
      moreover have "k \<in> set (keys @ [k])"
        by simp
      ultimately have "k = l"
        using snoc.prems(3) by blast
      with False show False
        by simp
    qed
    from snoc.prems(1) False have m: "l \<in> set keys"
      by simp
    from snoc.prems(3) have "\<forall>k\<in>set keys. map_of bl k = Some tp \<longrightarrow> k = l"
      by simp
    from snoc.IH [OF m snoc.prems(2) this] n show ?thesis
      by (cases "map_of bl k") (simp_all add: update_conv')
  qed
qed

lemma invert_complete:
  assumes "map_of bl l = Some tp" "\<forall>k. map_of bl k = Some tp \<longrightarrow> k = l"
  shows "map_of (invert bl) tp = Some l"
proof -
  from assms(1) have "l \<in> set (object_keys bl)"
    by (auto simp: set_object_keys dest: map_of_SomeD intro: rev_image_eqI)
  moreover from assms(2) have "\<forall>k\<in>set (object_keys bl). map_of bl k = Some tp \<longrightarrow> k = l"
    by blast
  ultimately show ?thesis
    unfolding invert_def using assms(1) by (intro invert_fold_complete)
qed

definition translationAsset :: "(string \<times> string) list \<Rightarrow> string \<Rightarrow> asset list" where
  "translationAsset tr np =
     (case map_of tr np of
        None \<Rightarrow> []
      | Some l \<Rightarrow>
          if l = [] then []
          else [\<lparr>asset_type = translationType l, asset_path = np\<rparr>])"

lemma NLS_onFile_step:
  "nls_translations (NLS_onFile norm p f) = nls_translations p"
  "assets (NLS_onFile norm p f) = assets p @ translationAsset (nls_translations p) (norm (path f))"
  by (simp_all add: NLS_onFile_def Let_def translationAsset_def truthy_def to_string_def
      split: option.splits)

lemma NLS_fold_assets:
  "assets (foldl (NLS_onFile norm) p files) =
   assets p @ concat (map (\<lambda>f. translationAsset (nls_translations p) (norm (path f))) files)"
  by (induction files arbitrary: p) (simp_all add: NLS_onFile_step)

lemma translationAsset_mem:
  "a \<in> set (translationAsset tr np) \<longleftrightarrow>
     (\<exists>l. map_of tr np = Some l \<and> l \<noteq> [] \<and>
          a = \<lparr>asset_type = translationType l, asset_path = np\<rparr>)"
  by (cases "map_of tr np") (auto simp: translationAsset_def)

lemma translationType_inj: "translationType a = translationType b \<longleftrightarrow> a = b"
  by (simp add: translationType_def)

lemma NLS_translations_sound:
  "map_of (nls_translations (NLSProcessor toUpperCase norm m)) tp = Some l \<Longrightarrow> lastDeclaredVscode toUpperCase norm m l = Some tp"
  by (auto simp: NLSProcessor_def byLanguage_last split: option.splits if_splits dest!: invert_sound)

lemma lastDeclared_empty:
  "contributes m = Some c \<Longrightarrow> localizations c = Some [] \<Longrightarrow> lastDeclaredVscode toUpperCase norm m l = None"
  by (simp add: lastDeclaredVscode_def lastOf_def declaredVscode_def localizationsOf_def)

lemma lastDeclared_none:
  "contributes m = None \<Longrightarrow> lastDeclaredVscode toUpperCase norm m l = None"
  "contributes m = Some c \<Longrightarrow> localizations c = None \<Longrightarrow> lastDeclaredVscode toUpperCase norm m l = None"
  by (simp_all add: lastDeclaredVscode_def lastOf_def declaredVscode_def localizationsOf_def)

lemma NLS_translations_complete:
  assumes "lastDeclaredVscode toUpperCase norm m l = Some tp" "\<forall>k. lastDeclaredVscode toUpperCase norm m k = Some tp \<longrightarrow> k = l"
  shows "map_of (nls_translations (NLSProcessor toUpperCase norm m)) tp = Some l"
proof -
  from assms(1) obtain c where c1: "contributes m = Some c"
    by (cases "contributes m") (simp_all add: lastDeclared_none)
  with assms(1) obtain locs where c2: "localizations c = Some locs"
    by (cases "localizations c") (simp_all add: lastDeclared_none)
  with c1 assms(1) have c3: "locs \<noteq> []"
    by (auto simp: lastDeclared_empty)
  note c = c1 c2 c3
  have b: "map_of (translationsByLanguage toUpperCase norm locs) k = lastDeclaredVscode toUpperCase norm m k" for k
    by (rule byLanguage_last [OF c1 c2])
  have "map_of (invert (translationsByLanguage toUpperCase norm locs)) tp = Some l"
  proof (rule invert_complete)
    show "map_of (translationsByLanguage toUpperCase norm locs) l = Some tp"
      unfolding b by (rule assms(1))
    show "\<forall>k. map_of (translationsByLanguage toUpperCase norm locs) k = Some tp \<longrightarrow> k = l"
      unfolding b by (rule assms(2))
  qed
  with c show ?thesis
    by (simp add: NLSProcessor_def)
qed

text \<open>
  C8 (as amended). Among the translation entries whose id is \<^verbatim>\<open>vscode\<close> and whose path
  is not empty, the last one declared for a language gives the translation asset of
  that language (language ids compared in upper case): an asset that the stage
  registers as the translation asset of a language has the path of that entry, so the
  path of an earlier such entry, and the path of an entry with another id, is not
  registered as that language's asset unless it is also the path of that entry. The path
  is registered when a file with that normalized path is included, the language id is
  not empty, and no other language has the same last path.
\<close>

theorem last_translation_path:
  "(\<lparr>asset_type = translationType lang, asset_path = tp\<rparr>
      \<in> set (assets (NLS_files toUpperCase norm m files))
    \<longrightarrow> lastDeclaredVscode toUpperCase norm m lang = Some tp \<and> (\<exists>f\<in>set files. norm (path f) = tp))
   \<and> (\<forall>a\<in>set (assets (NLS_files toUpperCase norm m files)).
        \<exists>l. asset_type a = translationType l
           \<and> lastDeclaredVscode toUpperCase norm m l = Some (asset_path a))
   \<and> (lastDeclaredVscode toUpperCase norm m lang = Some tp \<and> lang \<noteq> []
      \<and> (\<forall>k. lastDeclaredVscode toUpperCase norm m k = Some tp \<longrightarrow> k = lang)
      \<and> (\<exists>f\<in>set files. norm (path f) = tp)
    \<longrightarrow> \<lparr>asset_type = translationType lang, asset_path = tp\<rparr>
          \<in> set (assets (NLS_files toUpperCase norm m files)))"
proof -
  define tr where "tr = nls_translations (NLSProcessor toUpperCase norm m)"
  have assets_eq: "assets (NLS_files toUpperCase norm m files) =
      concat (map (\<lambda>f. translationAsset tr (norm (path f))) files)"
    by (simp add: NLS_files_def NLS_fold_assets tr_def) (simp add: NLSProcessor_def)
  have mem: "a \<in> set (assets (NLS_files toUpperCase norm m files)) \<longleftrightarrow>
      (\<exists>f\<in>set files. \<exists>l. map_of tr (norm (path f)) = Some l \<and> l \<noteq> []
          \<and> a = \<lparr>asset_type = translationType l, asset_path = norm (path f)\<rparr>)" for a
    unfolding assets_eq by (simp add: translationAsset_mem)
  have 1: "\<lparr>asset_type = translationType lang, asset_path = tp\<rparr>
      \<in> set (assets (NLS_files toUpperCase norm m files))
    \<longrightarrow> lastDeclaredVscode toUpperCase norm m lang = Some tp \<and> (\<exists>f\<in>set files. norm (path f) = tp)"
  proof
    assume "\<lparr>asset_type = translationType lang, asset_path = tp\<rparr>
      \<in> set (assets (NLS_files toUpperCase norm m files))"
    then obtain f l where f: "f \<in> set files" and l: "map_of tr (norm (path f)) = Some l"
      and eq: "translationType lang = translationType l" "tp = norm (path f)"
      unfolding mem by auto
    from eq(1) have "lang = l"
      by (simp add: translationType_inj)
    with l eq(2) have "lastDeclaredVscode toUpperCase norm m lang = Some tp"
      using NLS_translations_sound [of toUpperCase norm m tp l] by (simp add: tr_def)
    with f eq(2) show "lastDeclaredVscode toUpperCase norm m lang = Some tp
        \<and> (\<exists>f\<in>set files. norm (path f) = tp)"
      by auto
  qed
  have 2: "\<forall>a\<in>set (assets (NLS_files toUpperCase norm m files)).
        \<exists>l. asset_type a = translationType l
           \<and> lastDeclaredVscode toUpperCase norm m l = Some (asset_path a)"
  proof
    fix a
    assume "a \<in> set (assets (NLS_files toUpperCase norm m files))"
    then have "\<exists>f\<in>set files. \<exists>l. map_of tr (norm (path f)) = Some l \<and> l \<noteq> []
          \<and> a = \<lparr>asset_type = translationType l, asset_path = norm (path f)\<rparr>"
      unfolding mem .
    then show "\<exists>l. asset_type a = translationType l
        \<and> lastDeclaredVscode toUpperCase norm m l = Some (asset_path a)"
    proof (elim bexE exE conjE)
      fix f :: ifile and l
      assume l: "map_of tr (norm (path f)) = Some l"
        and a: "a = \<lparr>asset_type = translationType l, asset_path = norm (path f)\<rparr>"
      from l have "lastDeclaredVscode toUpperCase norm m l = Some (norm (path f))"
        using NLS_translations_sound [of toUpperCase norm m "norm (path f)" l] by (simp add: tr_def)
      with a show ?thesis
        by auto
    qed
  qed
  have 3: "lastDeclaredVscode toUpperCase norm m lang = Some tp \<and> lang \<noteq> []
      \<and> (\<forall>k. lastDeclaredVscode toUpperCase norm m k = Some tp \<longrightarrow> k = lang)
      \<and> (\<exists>f\<in>set files. norm (path f) = tp)
    \<longrightarrow> \<lparr>asset_type = translationType lang, asset_path = tp\<rparr>
          \<in> set (assets (NLS_files toUpperCase norm m files))"
  proof
    assume h: "lastDeclaredVscode toUpperCase norm m lang = Some tp \<and> lang \<noteq> []
      \<and> (\<forall>k. lastDeclaredVscode toUpperCase norm m k = Some tp \<longrightarrow> k = lang)
      \<and> (\<exists>f\<in>set files. norm (path f) = tp)"
    then obtain f where f: "f \<in> set files" "norm (path f) = tp"
      by auto
    from h have "map_of tr tp = Some lang"
      unfolding tr_def by (intro NLS_translations_complete) simp_all
    with f h show "\<lparr>asset_type = translationType lang, asset_path = tp\<rparr>
          \<in> set (assets (NLS_files toUpperCase norm m files))"
      unfolding mem by (intro bexI [of _ f] exI [of _ lang]) simp_all
  qed
  from 1 2 3 show ?thesis
    by (intro conjI)
qed


text \<open>A manifest with two localizations for one language, and both translation files.\<close>

definition nls_manifest :: manifest where
  "nls_manifest =
     \<lparr>repository = None, license = None, icon = None,
      contributes = Some \<lparr>localizations = Some
        [\<lparr>languageId = ''zh-cn'',
          loc_translations =
            [\<lparr>translation_id = ''vscode'', translation_path = ''./translations/old.json''\<rparr>]\<rparr>,
         \<lparr>languageId = ''zh-CN'',
          loc_translations =
            [\<lparr>translation_id = ''vscode'', translation_path = ''./translations/new.json''\<rparr>]\<rparr>]\<rparr>\<rparr>"

definition nls_files :: "ifile list" where
  "nls_files =
     [\<lparr>path = ''extension/translations/old.json'', contents = None,
       localPath = Some ''translations/old.json''\<rparr>,
      \<lparr>path = ''extension/translations/new.json'', contents = None,
       localPath = Some ''translations/new.json''\<rparr>]"

definition new_json :: string where
  "new_json = ''extension/translations/new.json''"

theorem last_translation_path_witness:
  "\<lparr>asset_type = translationType ''ZH-CN'', asset_path = new_json\<rparr>
     \<in> set (assets (NLS_files upper_ascii normalize_slashes nls_manifest nls_files))
   \<and> lastDeclaredVscode upper_ascii normalize_slashes nls_manifest ''ZH-CN'' = Some new_json
   \<and> ''ZH-CN'' \<noteq> []
   \<and> (\<exists>f\<in>set nls_files. normalize_slashes (path f) = new_json)
   \<and> assets (NLS_files upper_ascii normalize_slashes nls_manifest nls_files)
      = [\<lparr>asset_type = ''Microsoft.VisualStudio.Code.Translation.ZH-CN'',
          asset_path = ''extension/translations/new.json''\<rparr>]"
proof -
  have d: "declaredVscode upper_ascii normalize_slashes nls_manifest
      = [(''ZH-CN'', ''extension/translations/old.json''), (''ZH-CN'', new_json)]"
    by code_simp
  have l: "lastDeclaredVscode upper_ascii normalize_slashes nls_manifest ''ZH-CN'' = Some new_json"
    by code_simp
  have u: "\<forall>k. lastDeclaredVscode upper_ascii normalize_slashes nls_manifest k = Some new_json
      \<longrightarrow> k = ''ZH-CN''"
  proof (intro allI impI)
    fix k
    assume a: "lastDeclaredVscode upper_ascii normalize_slashes nls_manifest k = Some new_json"
    show "k = ''ZH-CN''"
    proof (rule ccontr)
      assume "k \<noteq> ''ZH-CN''"
      then have "filter (\<lambda>(l, tpath). l = k)
          [(''ZH-CN'', ''extension/translations/old.json''), (''ZH-CN'', new_json)] = []"
        by auto
      then have "lastDeclaredVscode upper_ascii normalize_slashes nls_manifest k = None"
        unfolding lastDeclaredVscode_def lastOf_def d by simp
      with a show False
        by simp
    qed
  qed
  have f: "\<exists>f\<in>set nls_files. normalize_slashes (path f) = new_json"
    "''ZH-CN'' \<noteq> []"
    by code_simp+
  have e: "assets (NLS_files upper_ascii normalize_slashes nls_manifest nls_files)
      = [\<lparr>asset_type = ''Microsoft.VisualStudio.Code.Translation.ZH-CN'',
          asset_path = ''extension/translations/new.json''\<rparr>]"
    by code_simp
  note t = last_translation_path [of "''ZH-CN''" new_json upper_ascii normalize_slashes nls_manifest
      nls_files]
  have h: "\<lparr>asset_type = translationType ''ZH-CN'', asset_path = new_json\<rparr>
     \<in> set (assets (NLS_files upper_ascii normalize_slashes nls_manifest nls_files))"
    by (rule t [THEN conjunct2, THEN conjunct2, THEN mp]) (intro conjI l f u)
  have "lastDeclaredVscode upper_ascii normalize_slashes nls_manifest ''ZH-CN'' = Some new_json"
    using t [THEN conjunct1, THEN mp, OF h] by (rule conjunct1)
  show ?thesis
    by (intro conjI) (fact h l f e)+
qed

text \<open>
  The claim as stated fails for a language pack that declares, for one language, the
  translation of the editor (id \<^verbatim>\<open>vscode\<close>) and then the translation of an extension: the
  last path declared for the language is not registered, and the earlier path is the
  translation asset of the language.
\<close>

definition pack_manifest :: manifest where
  "pack_manifest =
     \<lparr>repository = None, license = None, icon = None,
      contributes = Some \<lparr>localizations = Some
        [\<lparr>languageId = ''zh-cn'',
          loc_translations =
            [\<lparr>translation_id = ''vscode'', translation_path = ''./translations/main.i18n.json''\<rparr>,
             \<lparr>translation_id = ''vscode.git'',
              translation_path = ''./translations/extensions/git.i18n.json''\<rparr>]\<rparr>]\<rparr>\<rparr>"

definition pack_files :: "ifile list" where
  "pack_files =
     [\<lparr>path = ''extension/translations/main.i18n.json'', contents = None,
       localPath = Some ''translations/main.i18n.json''\<rparr>,
      \<lparr>path = ''extension/translations/extensions/git.i18n.json'', contents = None,
       localPath = Some ''translations/extensions/git.i18n.json''\<rparr>]"

theorem last_translation_path_counterexample:
  "declared upper_ascii normalize_slashes pack_manifest
     = [(''ZH-CN'', ''extension/translations/main.i18n.json''),
        (''ZH-CN'', ''extension/translations/extensions/git.i18n.json'')]
   \<and> lastDeclared upper_ascii normalize_slashes pack_manifest ''ZH-CN''
     = Some ''extension/translations/extensions/git.i18n.json''
   \<and> assets (NLS_files upper_ascii normalize_slashes pack_manifest pack_files)
     = [\<lparr>asset_type = ''Microsoft.VisualStudio.Code.Translation.ZH-CN'',
         asset_path = ''extension/translations/main.i18n.json''\<rparr>]"
  by code_simp

end
